theory Spec2Isabelle
  imports Complex_Main "HOL-Library.Word"
begin

section \<open>Data model\<close>

text \<open>
  The controllers of the repository work on MongoDB collections through Mongoose models.
  A collection is modelled as the list of its documents in insertion order, a document as
  a record of the paths the controllers read and write, and an ObjectId as a natural
  number.  The schema files of the models are not part of the sources; every record
  below carries exactly the paths that the controllers (and the field projections of
  their pipelines) mention.
\<close>

type_synonym oid = nat

text \<open>
  The texts of requests and documents are JavaScript strings: sequences of UTF-16 code
  units.  \<open>js\<close> gives the string of an ASCII literal of the source.
\<close>

type_synonym jsstring = "16 word list"

definition js :: "string \<Rightarrow> jsstring" where
  "js str = map (\<lambda>ch. of_nat (of_char ch)) str"

text \<open>
  A route parameter is a text.  It either reads as an ObjectId or it does not; this is
  what \<^verbatim>\<open>isValidObjectId\<close> tests and what Mongoose casts when the text is used
  in a query.  A text that reads as the id \<open>i\<close> is either the text that
  \<^verbatim>\<open>toString()\<close> gives for \<open>i\<close> (24 lower-case hexadecimal digits) or
  another spelling that is cast to the same id (upper-case digits, for instance).  The
  spelling matters where a controller compares the text itself.  The controllers below
  branch on the parameter by cases: \<open>Malformed\<close> is the branch
  \<^verbatim>\<open>!isValidObjectId(id)\<close>, and \<open>ObjectId i sp\<close> gives the id that the
  queries use.
\<close>

datatype spelling = Canonical | Variant

datatype param = Malformed | ObjectId oid spelling

fun isValidObjectId :: "param \<Rightarrow> bool" where
  "isValidObjectId Malformed = False"
| "isValidObjectId (ObjectId i sp) = True"

record user =
  u_id :: oid
  u_fullName :: jsstring
  u_username :: jsstring
  u_avatar :: jsstring
  u_coverImage :: jsstring

record video =
  v_id :: oid
  v_videoFile :: jsstring
  v_thumbnail :: jsstring
  v_title :: jsstring
  v_description :: jsstring
  v_duration :: nat
  v_views :: nat
  v_isPublished :: bool
  v_owner :: oid

record subscription =
  s_id :: oid
  s_subscriber :: oid
  s_channel :: oid

text \<open>
  A like document carries the liking user and the paths \<^verbatim>\<open>video\<close>,
  \<^verbatim>\<open>Comment\<close> and \<^verbatim>\<open>tweet\<close>, spelled as the like controller writes
  and queries them; a path that was not given at creation is absent (\<open>None\<close>).
\<close>

record like =
  l_id :: oid
  l_video :: "oid option"
  l_Comment :: "oid option"
  l_tweet :: "oid option"
  l_likedBy :: oid

record comment =
  c_id :: oid
  c_video :: oid
  c_owner :: oid
  c_content :: jsstring

record tweet =
  t_id :: oid
  t_content :: jsstring
  t_owner :: oid

record playlist =
  p_id :: oid
  p_name :: jsstring
  p_description :: jsstring
  p_videos :: "oid list"
  p_owner :: oid

record store =
  users :: "user list"
  videos :: "video list"
  subscriptions :: "subscription list"
  likes :: "like list"
  comments :: "comment list"
  tweets :: "tweet list"
  playlists :: "playlist list"

text \<open>
  \<^verbatim>\<open>throw new ApiError(status, message)\<close> and
  \<^verbatim>\<open>new ApiResponse(status, data, message)\<close>.
\<close>

datatype apiError = ApiError nat string

datatype 'a apiResponse = ApiResponse nat 'a string

text \<open>
  A handler takes the store and returns the store it leaves behind together with either
  the error it threw or the response it sent.
\<close>

type_synonym 'a handler = "store \<Rightarrow> store \<times> (apiError + 'a apiResponse)"

section \<open>The model operations used by the controllers\<close>

definition findById :: "('d \<Rightarrow> oid) \<Rightarrow> 'd list \<Rightarrow> oid \<Rightarrow> 'd option" where
  "findById idOf ds i = find (\<lambda>d. idOf d = i) ds"

definition findOne :: "('d \<Rightarrow> bool) \<Rightarrow> 'd list \<Rightarrow> 'd option" where
  "findOne flt ds = find flt ds"

fun findByIdAndDelete :: "('d \<Rightarrow> oid) \<Rightarrow> oid \<Rightarrow> 'd list \<Rightarrow> 'd list" where
  "findByIdAndDelete idOf i [] = []"
| "findByIdAndDelete idOf i (d # ds) =
     (if idOf d = i then ds else d # findByIdAndDelete idOf i ds)"

fun findByIdAndUpdate :: "('d \<Rightarrow> oid) \<Rightarrow> oid \<Rightarrow> ('d \<Rightarrow> 'd) \<Rightarrow> 'd list \<Rightarrow> 'd list" where
  "findByIdAndUpdate idOf i upd [] = []"
| "findByIdAndUpdate idOf i upd (d # ds) =
     (if idOf d = i then upd d # ds else d # findByIdAndUpdate idOf i upd ds)"

definition countDocuments :: "('d \<Rightarrow> bool) \<Rightarrow> 'd list \<Rightarrow> nat" where
  "countDocuments flt ds = length (filter flt ds)"

text \<open>The identifier given to a created document: one that no document of the collection has.\<close>

fun freshId :: "oid list \<Rightarrow> oid" where
  "freshId [] = 0"
| "freshId (i # is) = max (Suc i) (freshId is)"

section \<open>The toggle controllers\<close>

text \<open>
  Each controller validates the route parameter, looks the target up, looks for the edge
  document of the caller and the target, and deletes the document it found or creates a
  new one.  The test of \<^verbatim>\<open>toggleSubscription\<close> that the channel is not the
  caller, \<^verbatim>\<open>channelId === req.user._id.toString()\<close>, compares texts: it holds when
  the parameter is the canonical spelling of the caller's id.
\<close>

datatype toggleData = IsSubscribed bool | IsLiked bool

definition toggleSubscription :: "oid \<Rightarrow> param \<Rightarrow> toggleData handler" where
  "toggleSubscription reqUser channelId s =
     (case channelId of
        Malformed \<Rightarrow> (s, Inl (ApiError 400 ''Invalid channel ID''))
      | ObjectId cid sp \<Rightarrow>
          (case findById u_id (users s) cid of
             None \<Rightarrow> (s, Inl (ApiError 404 ''Channel not found''))
           | Some channel \<Rightarrow>
               if sp = Canonical \<and> cid = reqUser
               then (s, Inl (ApiError 400 ''You cannot subscribe to your own channel''))
               else
                 (case findOne (\<lambda>d. s_subscriber d = reqUser \<and> s_channel d = cid)
                         (subscriptions s) of
                    Some existingSubscription \<Rightarrow>
                      (s\<lparr>subscriptions :=
                           findByIdAndDelete s_id (s_id existingSubscription) (subscriptions s)\<rparr>,
                       Inr (ApiResponse 200 (IsSubscribed False) ''Unsubscribed successfully''))
                  | None \<Rightarrow>
                      (s\<lparr>subscriptions := subscriptions s @
                           [\<lparr>s_id = freshId (map s_id (subscriptions s)),
                             s_subscriber = reqUser, s_channel = cid\<rparr>]\<rparr>,
                       Inr (ApiResponse 200 (IsSubscribed True) ''Subscribed successfully'')))))"

definition toggleVideoLike :: "oid \<Rightarrow> param \<Rightarrow> toggleData handler" where
  "toggleVideoLike reqUser videoId s =
     (case videoId of
        Malformed \<Rightarrow> (s, Inl (ApiError 400 ''Invalid video ID''))
      | ObjectId vid sp \<Rightarrow>
          (case findById v_id (videos s) vid of
             None \<Rightarrow> (s, Inl (ApiError 404 ''Video not found''))
           | Some video \<Rightarrow>
               (case findOne (\<lambda>d. l_video d = Some vid \<and> l_likedBy d = reqUser) (likes s) of
                  Some existingLike \<Rightarrow>
                    (s\<lparr>likes := findByIdAndDelete l_id (l_id existingLike) (likes s)\<rparr>,
                     Inr (ApiResponse 200 (IsLiked False) ''Video unliked successfully''))
                | None \<Rightarrow>
                    (s\<lparr>likes := likes s @
                         [\<lparr>l_id = freshId (map l_id (likes s)), l_video = Some vid,
                           l_Comment = None, l_tweet = None, l_likedBy = reqUser\<rparr>]\<rparr>,
                     Inr (ApiResponse 200 (IsLiked True) ''Video liked successfully'')))))"

definition toggleCommentLike :: "oid \<Rightarrow> param \<Rightarrow> toggleData handler" where
  "toggleCommentLike reqUser commentId s =
     (case commentId of
        Malformed \<Rightarrow> (s, Inl (ApiError 400 ''Invalid comment ID''))
      | ObjectId cid sp \<Rightarrow>
          (case findById c_id (comments s) cid of
             None \<Rightarrow> (s, Inl (ApiError 404 ''Comment not found''))
           | Some comment \<Rightarrow>
               (case findOne (\<lambda>d. l_Comment d = Some cid \<and> l_likedBy d = reqUser) (likes s) of
                  Some existingLike \<Rightarrow>
                    (s\<lparr>likes := findByIdAndDelete l_id (l_id existingLike) (likes s)\<rparr>,
                     Inr (ApiResponse 200 (IsLiked False) ''Comment unliked successfully''))
                | None \<Rightarrow>
                    (s\<lparr>likes := likes s @
                         [\<lparr>l_id = freshId (map l_id (likes s)), l_video = None,
                           l_Comment = Some cid, l_tweet = None, l_likedBy = reqUser\<rparr>]\<rparr>,
                     Inr (ApiResponse 200 (IsLiked True) ''Comment liked successfully'')))))"

definition toggleTweetLike :: "oid \<Rightarrow> param \<Rightarrow> toggleData handler" where
  "toggleTweetLike reqUser tweetId s =
     (case tweetId of
        Malformed \<Rightarrow> (s, Inl (ApiError 400 ''Invalid tweet ID''))
      | ObjectId tid sp \<Rightarrow>
          (case findById t_id (tweets s) tid of
             None \<Rightarrow> (s, Inl (ApiError 404 ''Tweet not found''))
           | Some tweet \<Rightarrow>
               (case findOne (\<lambda>d. l_tweet d = Some tid \<and> l_likedBy d = reqUser) (likes s) of
                  Some existingLike \<Rightarrow>
                    (s\<lparr>likes := findByIdAndDelete l_id (l_id existingLike) (likes s)\<rparr>,
                     Inr (ApiResponse 200 (IsLiked False) ''Tweet unliked successfully''))
                | None \<Rightarrow>
                    (s\<lparr>likes := likes s @
                         [\<lparr>l_id = freshId (map l_id (likes s)), l_video = None,
                           l_Comment = None, l_tweet = Some tid, l_likedBy = reqUser\<rparr>]\<rparr>,
                     Inr (ApiResponse 200 (IsLiked True) ''Tweet liked successfully'')))))"

section \<open>The edge view of the relationship collections\<close>

text \<open>
  An Edge of the data model is a triple (source, target, kind).  A subscription document
  is the FOLLOW edge from its subscriber to its channel; a like document is a LIKE edge
  from its liking user to each target it names.  The kind of entity a target id denotes
  is part of the target, as the collections of videos, comments and tweets are separate.
\<close>

datatype entity = Actor oid | VideoItem oid | CommentItem oid | TweetItem oid

datatype kind = FOLLOW | LIKE

type_synonym edge = "oid \<times> entity \<times> kind"

definition subscriptionEdge :: "subscription \<Rightarrow> edge option" where
  "subscriptionEdge d = Some (s_subscriber d, Actor (s_channel d), FOLLOW)"

definition videoLikeEdge :: "like \<Rightarrow> edge option" where
  "videoLikeEdge d = map_option (\<lambda>v. (l_likedBy d, VideoItem v, LIKE)) (l_video d)"

definition commentLikeEdge :: "like \<Rightarrow> edge option" where
  "commentLikeEdge d = map_option (\<lambda>c. (l_likedBy d, CommentItem c, LIKE)) (l_Comment d)"

definition tweetLikeEdge :: "like \<Rightarrow> edge option" where
  "tweetLikeEdge d = map_option (\<lambda>t. (l_likedBy d, TweetItem t, LIKE)) (l_tweet d)"

definition edges :: "store \<Rightarrow> edge list" where
  "edges s = List.map_filter subscriptionEdge (subscriptions s) @
             List.map_filter videoLikeEdge (likes s) @
             List.map_filter commentLikeEdge (likes s) @
             List.map_filter tweetLikeEdge (likes s)"

text \<open>The store gives every document of a collection its own \<^verbatim>\<open>_id\<close>.\<close>

definition distinctIds :: "store \<Rightarrow> bool" where
  "distinctIds s = (distinct (map s_id (subscriptions s)) \<and> distinct (map l_id (likes s)))"

text \<open>The invariant of the data model: no triple has two edges.\<close>

definition atMostOneEdge :: "store \<Rightarrow> bool" where
  "atMostOneEdge s = distinct (edges s)"

definition present :: "store \<Rightarrow> edge \<Rightarrow> bool" where
  "present s e = (e \<in> set (edges s))"

fun targetExists :: "store \<Rightarrow> entity \<Rightarrow> bool" where
  "targetExists s (Actor c) = (findById u_id (users s) c \<noteq> None)"
| "targetExists s (VideoItem v) = (findById v_id (videos s) v \<noteq> None)"
| "targetExists s (CommentItem c) = (findById c_id (comments s) c \<noteq> None)"
| "targetExists s (TweetItem t) = (findById t_id (tweets s) t \<noteq> None)"

text \<open>
  The toggle request for a target, its id spelled as \<open>sp\<close>: the route of the
  controller for its kind of entity.
\<close>

fun toggleEdge :: "oid \<Rightarrow> spelling \<Rightarrow> entity \<Rightarrow> toggleData handler" where
  "toggleEdge source sp (Actor c) = toggleSubscription source (ObjectId c sp)"
| "toggleEdge source sp (VideoItem v) = toggleVideoLike source (ObjectId v sp)"
| "toggleEdge source sp (CommentItem c) = toggleCommentLike source (ObjectId c sp)"
| "toggleEdge source sp (TweetItem t) = toggleTweetLike source (ObjectId t sp)"

fun kindOf :: "entity \<Rightarrow> kind" where
  "kindOf (Actor c) = FOLLOW"
| "kindOf (VideoItem v) = LIKE"
| "kindOf (CommentItem c) = LIKE"
| "kindOf (TweetItem t) = LIKE"

fun reported :: "entity \<Rightarrow> bool \<Rightarrow> toggleData" where
  "reported (Actor c) b = IsSubscribed b"
| "reported (VideoItem v) b = IsLiked b"
| "reported (CommentItem c) b = IsLiked b"
| "reported (TweetItem t) b = IsLiked b"

text \<open>
  The same request sent \<open>n\<close> times in a row: every request runs on the store its
  predecessor left; the outcomes are collected in order.
\<close>

primrec repeatRequest ::
  "nat \<Rightarrow> (store \<Rightarrow> store \<times> 'r) \<Rightarrow> store \<Rightarrow> store \<times> 'r list" where
  "repeatRequest 0 h s = (s, [])"
| "repeatRequest (Suc n) h s =
     (case h s of (s1, r) \<Rightarrow>
        (case repeatRequest n h s1 of (s2, rs) \<Rightarrow> (s2, r # rs)))"

fun succeeded :: "apiError + 'a apiResponse \<Rightarrow> bool" where
  "succeeded (Inl err) = False"
| "succeeded (Inr (ApiResponse status payload msg)) = (status = 200)"

text \<open>
  How one request may change a collection of edge documents: not at all, by one document
  appended, or by one document taken out; the documents that stay are the ones that were
  there.
\<close>

definition createdOrDeleted :: "'d list \<Rightarrow> 'd list \<Rightarrow> bool" where
  "createdOrDeleted before after =
     (after = before \<or>
      (after \<noteq> [] \<and> butlast after = before) \<or>
      (\<exists>d\<in>set before. after = remove1 d before))"

definition edgesOnlyCreatedOrDeleted :: "store \<Rightarrow> store \<Rightarrow> bool" where
  "edgesOnlyCreatedOrDeleted s s' =
     (createdOrDeleted (subscriptions s) (subscriptions s') \<and>
      createdOrDeleted (likes s) (likes s'))"

text \<open>A small store for instantiating the theorems: two users, one video, one comment, one tweet.\<close>

definition sampleUsers :: "user list" where
  "sampleUsers =
     [\<lparr>u_id = 1, u_fullName = js ''Asha'', u_username = js ''asha'', u_avatar = js ''a.png'',
        u_coverImage = js ''''\<rparr>,
      \<lparr>u_id = 2, u_fullName = js ''Ben'', u_username = js ''ben'', u_avatar = js ''b.png'',
        u_coverImage = js ''''\<rparr>]"

definition sampleVideo :: video where
  "sampleVideo =
     \<lparr>v_id = 10, v_videoFile = js ''v.mp4'', v_thumbnail = js ''t.png'', v_title = js ''Intro'',
       v_description = js ''First video'', v_duration = 60, v_views = 7, v_isPublished = True,
       v_owner = 1\<rparr>"

definition sampleStore :: store where
  "sampleStore =
     \<lparr>users = sampleUsers, videos = [sampleVideo], subscriptions = [], likes = [],
       comments = [\<lparr>c_id = 20, c_video = 10, c_owner = 2, c_content = js ''Nice''\<rparr>],
       tweets = [\<lparr>t_id = 30, t_content = js ''Hello'', t_owner = 1\<rparr>],
       playlists = [\<lparr>p_id = 40, p_name = js ''Mix'', p_description = js ''All'', p_videos = [10],
                      p_owner = 1\<rparr>]\<rparr>"

section \<open>Request values\<close>

text \<open>
  A field of a request body or of a query string is absent or a string.  JavaScript
  treats an absent value and the empty string as false in a condition.
\<close>

fun truthy :: "jsstring option \<Rightarrow> bool" where
  "truthy None = False"
| "truthy (Some str) = (str \<noteq> [])"

text \<open>
  \<^verbatim>\<open>String.prototype.trim\<close> removes white space and line terminators from
  both ends: the code units TAB, LF, VT, FF, CR, SPACE, NO-BREAK SPACE, U+1680,
  U+2000 to U+200A, U+2028, U+2029, U+202F, U+205F, U+3000 and U+FEFF.
\<close>

definition isSpace :: "16 word \<Rightarrow> bool" where
  "isSpace u =
     (u \<in> set [0x0009, 0x000A, 0x000B, 0x000C, 0x000D, 0x0020, 0x00A0, 0x1680,
                0x2000, 0x2001, 0x2002, 0x2003, 0x2004, 0x2005, 0x2006, 0x2007, 0x2008,
                0x2009, 0x200A, 0x2028, 0x2029, 0x202F, 0x205F, 0x3000, 0xFEFF])"

definition trim :: "jsstring \<Rightarrow> jsstring" where
  "trim str = rev (dropWhile isSpace (rev (dropWhile isSpace str)))"


text \<open>
  The owner of a document as the responses show it: the user's \<^verbatim>\<open>_id\<close>,
  \<^verbatim>\<open>fullName\<close>, \<^verbatim>\<open>username\<close> and \<^verbatim>\<open>avatar\<close>.  Both
  \<^verbatim>\<open>populate("owner", "fullName username avatar")\<close> and the pipeline stages
  \<^verbatim>\<open>$lookup\<close> from users with that projection followed by
  \<^verbatim>\<open>$first\<close> yield it; it is missing when no user has the id.
\<close>

record ownerProfile =
  op_id :: oid
  op_fullName :: jsstring
  op_username :: jsstring
  op_avatar :: jsstring

definition projectOwner :: "user \<Rightarrow> ownerProfile" where
  "projectOwner usr =
     \<lparr>op_id = u_id usr, op_fullName = u_fullName usr, op_username = u_username usr,
       op_avatar = u_avatar usr\<rparr>"

definition lookupOwner :: "user list \<Rightarrow> oid \<Rightarrow> ownerProfile list" where
  "lookupOwner us ownerId = map projectOwner (filter (\<lambda>usr. u_id usr = ownerId) us)"

fun first :: "'a list \<Rightarrow> 'a option" where
  "first [] = None"
| "first (x # xs) = Some x"

definition populateOwner :: "user list \<Rightarrow> oid \<Rightarrow> ownerProfile option" where
  "populateOwner us ownerId = map_option projectOwner (findById u_id us ownerId)"

section \<open>The video controller\<close>

text \<open>
  The pipeline of \<^verbatim>\<open>getVideoById\<close> run on the store: the videos with the given
  \<^verbatim>\<open>_id\<close>, each with its owner looked up among the users and reduced to the
  first match.
\<close>

definition aggregateVideoWithOwner :: "store \<Rightarrow> oid \<Rightarrow> (video \<times> ownerProfile option) list" where
  "aggregateVideoWithOwner s vid =
     map (\<lambda>v. (v, first (lookupOwner (users s) (v_owner v))))
       (filter (\<lambda>v. v_id v = vid) (videos s))"

definition getVideoById :: "param \<Rightarrow> (video \<times> ownerProfile option) option handler" where
  "getVideoById videoId s =
     (case videoId of
        Malformed \<Rightarrow> (s, Inl (ApiError 400 ''Invalid video ID''))
      | ObjectId vid sp \<Rightarrow>
          (case findById v_id (videos s) vid of
             None \<Rightarrow> (s, Inl (ApiError 404 ''Video not found''))
           | Some video \<Rightarrow>
               (let s1 = s\<lparr>videos :=
                           findByIdAndUpdate v_id vid (\<lambda>v. v\<lparr>v_views := v_views v + 1\<rparr>) (videos s)\<rparr>;
                    videoWithOwner = aggregateVideoWithOwner s1 vid
                in (s1, Inr (ApiResponse 200 (first videoWithOwner) ''Video fetched successfully'')))))"

record videoBody =
  vb_title :: "jsstring option"
  vb_description :: "jsstring option"

record videoUpdateFields =
  uf_title :: "jsstring option"
  uf_description :: "jsstring option"
  uf_thumbnail :: "jsstring option"

text \<open>\<^verbatim>\<open>{ $set: updateFields }\<close>: every field that the object holds is overwritten.\<close>

definition setVideoFields :: "videoUpdateFields \<Rightarrow> video \<Rightarrow> video" where
  "setVideoFields uf v =
     v\<lparr>v_title := (case uf_title uf of None \<Rightarrow> v_title v | Some x \<Rightarrow> x),
       v_description := (case uf_description uf of None \<Rightarrow> v_description v | Some x \<Rightarrow> x),
       v_thumbnail := (case uf_thumbnail uf of None \<Rightarrow> v_thumbnail v | Some x \<Rightarrow> x)\<rparr>"

definition writeVideoUpdate :: "oid \<Rightarrow> videoUpdateFields \<Rightarrow> video option handler" where
  "writeVideoUpdate vid updateFields s =
     (let s1 = s\<lparr>videos := findByIdAndUpdate v_id vid (setVideoFields updateFields) (videos s)\<rparr>;
          updatedVideo = findById v_id (videos s1) vid
      in (s1, Inr (ApiResponse 200 updatedVideo ''Video updated successfully'')))"

text \<open>
  \<^verbatim>\<open>uploadOnCloudinary\<close> belongs to the media collaborator: given the local path
  of the uploaded file it returns the URL of the stored file, or nothing when the upload
  failed.  \<^verbatim>\<open>req.file\<close> is the local path of the uploaded thumbnail, if any.
\<close>

definition updateVideo ::
  "(jsstring \<Rightarrow> jsstring option) \<Rightarrow> oid \<Rightarrow> param \<Rightarrow> videoBody \<Rightarrow> jsstring option \<Rightarrow>
     video option handler" where
  "updateVideo uploadOnCloudinary reqUser videoId body reqFile s =
     (case videoId of
        Malformed \<Rightarrow> (s, Inl (ApiError 400 ''Invalid video ID''))
      | ObjectId vid sp \<Rightarrow>
          (case findById v_id (videos s) vid of
             None \<Rightarrow> (s, Inl (ApiError 404 ''Video not found''))
           | Some video \<Rightarrow>
               if v_owner video \<noteq> reqUser
               then (s, Inl (ApiError 403 ''You can only update your own videos''))
               else
                 (let updateFields =
                        \<lparr>uf_title = (if truthy (vb_title body) then vb_title body else None),
                          uf_description =
                            (if truthy (vb_description body) then vb_description body else None),
                          uf_thumbnail = None\<rparr>
                  in case reqFile of
                       None \<Rightarrow> writeVideoUpdate vid updateFields s
                     | Some thumbnailLocalPath \<Rightarrow>
                         (case uploadOnCloudinary thumbnailLocalPath of
                            None \<Rightarrow> (s, Inl (ApiError 400 ''Thumbnail upload failed''))
                          | Some url \<Rightarrow>
                              writeVideoUpdate vid (updateFields\<lparr>uf_thumbnail := Some url\<rparr>) s))))"

definition deleteVideo :: "oid \<Rightarrow> param \<Rightarrow> unit handler" where
  "deleteVideo reqUser videoId s =
     (case videoId of
        Malformed \<Rightarrow> (s, Inl (ApiError 400 ''Invalid video ID''))
      | ObjectId vid sp \<Rightarrow>
          (case findById v_id (videos s) vid of
             None \<Rightarrow> (s, Inl (ApiError 404 ''Video not found''))
           | Some video \<Rightarrow>
               if v_owner video \<noteq> reqUser
               then (s, Inl (ApiError 403 ''You can only delete your own videos''))
               else (s\<lparr>videos := findByIdAndDelete v_id vid (videos s)\<rparr>,
                     Inr (ApiResponse 200 () ''Video deleted successfully''))))"


section \<open>The tweet controller\<close>



section \<open>The playlist controller\<close>

definition populatedPlaylist ::
  "store \<Rightarrow> oid \<Rightarrow> (playlist \<times> ownerProfile option) option" where
  "populatedPlaylist s pid =
     map_option (\<lambda>p. (p, populateOwner (users s) (p_owner p))) (findById p_id (playlists s) pid)"






record playlistBody =
  pb_name :: "jsstring option"
  pb_description :: "jsstring option"

record playlistUpdateFields =
  pf_name :: "jsstring option"
  pf_description :: "jsstring option"

definition setPlaylistFields :: "playlistUpdateFields \<Rightarrow> playlist \<Rightarrow> playlist" where
  "setPlaylistFields uf p =
     p\<lparr>p_name := (case pf_name uf of None \<Rightarrow> p_name p | Some x \<Rightarrow> x),
       p_description := (case pf_description uf of None \<Rightarrow> p_description p | Some x \<Rightarrow> x)\<rparr>"

definition updatePlaylist ::
  "oid \<Rightarrow> param \<Rightarrow> playlistBody \<Rightarrow> (playlist \<times> ownerProfile option) option handler" where
  "updatePlaylist reqUser playlistId body s =
     (case playlistId of
        Malformed \<Rightarrow> (s, Inl (ApiError 400 ''Invalid playlist ID''))
      | ObjectId pid sp \<Rightarrow>
          (case findById p_id (playlists s) pid of
             None \<Rightarrow> (s, Inl (ApiError 404 ''Playlist not found''))
           | Some playlist \<Rightarrow>
               if p_owner playlist \<noteq> reqUser
               then (s, Inl (ApiError 403 ''You can only update your own playlists''))
               else
                 (let updateFields =
                        \<lparr>pf_name =
                           (if truthy (pb_name body) \<and> trim (the (pb_name body)) \<noteq> []
                            then Some (trim (the (pb_name body))) else None),
                          pf_description =
                           (if truthy (pb_description body) \<and> trim (the (pb_description body)) \<noteq> []
                            then Some (trim (the (pb_description body))) else None)\<rparr>
                  in if pf_name updateFields = None \<and> pf_description updateFields = None
                     then (s, Inl (ApiError 400
                             ''At least one field (name or description) is required''))
                     else
                       (let s1 = s\<lparr>playlists :=
                                   findByIdAndUpdate p_id pid (setPlaylistFields updateFields)
                                     (playlists s)\<rparr>
                        in (s1, Inr (ApiResponse 200 (populatedPlaylist s1 pid)
                                  ''Playlist updated successfully''))))))"

section \<open>The dashboard controller: channel statistics\<close>

record channelStats =
  totalVideos :: nat
  totalViews :: nat
  totalSubscribers :: nat
  totalLikes :: nat
  totalComments :: nat

text \<open>
  The pipeline \<^verbatim>\<open>[{$match: {owner}}, {$group: {_id: null, totalViews: {$sum: "$views"}}}]\<close>:
  one group with the sum of the views when a video matches, no group when none does.
\<close>

definition aggregateTotalViews :: "video list \<Rightarrow> oid \<Rightarrow> nat list" where
  "aggregateTotalViews vs userId =
     (case filter (\<lambda>v. v_owner v = userId) vs of
        [] \<Rightarrow> []
      | v # rest \<Rightarrow> [sum_list (map v_views (v # rest))])"

text \<open>\<^verbatim>\<open>Video.find({ owner: userId }).distinct('_id')\<close>.\<close>

definition ownedVideoIds :: "video list \<Rightarrow> oid \<Rightarrow> oid list" where
  "ownedVideoIds vs userId = remdups (map v_id (filter (\<lambda>v. v_owner v = userId) vs))"

text \<open>\<^verbatim>\<open>totalViews[0]?.totalViews || 0\<close>.\<close>

fun firstOrZero :: "nat list \<Rightarrow> nat" where
  "firstOrZero [] = 0"
| "firstOrZero (n # ns) = (if n = 0 then 0 else n)"

definition getChannelStats :: "oid \<Rightarrow> channelStats handler" where
  "getChannelStats userId s =
     (let totalVideos = countDocuments (\<lambda>v. v_owner v = userId) (videos s);
          totalViews = aggregateTotalViews (videos s) userId;
          totalSubscribers = countDocuments (\<lambda>d. s_channel d = userId) (subscriptions s);
          totalLikes =
            countDocuments
              (\<lambda>d. case l_video d of None \<Rightarrow> False
                                     | Some v \<Rightarrow> v \<in> set (ownedVideoIds (videos s) userId))
              (likes s);
          totalComments =
            countDocuments (\<lambda>d. c_video d \<in> set (ownedVideoIds (videos s) userId)) (comments s);
          stats = \<lparr>totalVideos = totalVideos, totalViews = firstOrZero totalViews,
                    totalSubscribers = totalSubscribers, totalLikes = totalLikes,
                    totalComments = totalComments\<rparr>
      in (s, Inr (ApiResponse 200 stats ''Channel stats fetched successfully'')))"

section \<open>Read views: pipelines and pagination\<close>

subsection \<open>Numbers read from the query string\<close>

text \<open>
  The controllers read the page and the limit of a request with the built-in
  \<^verbatim>\<open>parseInt\<close>.  Its result is a JavaScript number: an integer value or
  \<^verbatim>\<open>NaN\<close>.  Which number a text reads as is the language's matter (digits
  beyond the precision of a double are rounded, for instance); the controllers take the
  function as a parameter.
\<close>

datatype jsnum = NaN | Num int

text \<open>
  \<^verbatim>\<open>const { page = 1, limit = 10 } = req.query\<close> followed by
  \<^verbatim>\<open>{ page: parseInt(page), limit: parseInt(limit) }\<close>: the options that every
  paginated controller hands to the pagination executor.  \<^verbatim>\<open>parseInt\<close>
  turns the default numbers into the texts 1 and 10 before it reads them.
\<close>

record paginateOptions =
  opt_page :: jsnum
  opt_limit :: jsnum

definition pageOptions ::
  "(jsstring \<Rightarrow> jsnum) \<Rightarrow> jsstring option \<Rightarrow> jsstring option \<Rightarrow> paginateOptions" where
  "pageOptions parseInt page limit =
     \<lparr>opt_page = parseInt (case page of None \<Rightarrow> js ''1'' | Some p \<Rightarrow> p),
       opt_limit = parseInt (case limit of None \<Rightarrow> js ''10'' | Some l \<Rightarrow> l)\<rparr>"

subsection \<open>The pagination executor\<close>

record 'a pageResult =
  pr_items :: "'a list"
  pr_totalItems :: nat
  pr_page :: int
  pr_limit :: int
  pr_totalPages :: nat

text \<open>
  Modelled from the spec: the pagination executor \<^verbatim>\<open>paginate(pipeline, page, limit)\<close>.
  In the repository it is the model method \<^verbatim>\<open>aggregatePaginate\<close>, which a
  plugin of the schemas provides; neither the schema files nor the plugin are part of the
  sources.  Following sections 3 and 4.5 of the specification, the limit of a page
  request with \<open>page \<ge> 1\<close> and \<open>limit \<ge> 1\<close> is clamped to a fixed ceiling,
  and the result is the window of that many items that starts at offset
  \<open>(page - 1) * limit\<close> of the matching set, the size of the matching set, the number
  of pages \<open>ceil (totalItems / limit)\<close>, and the page and the limit.  The ceiling is
  the design constant that the specification leaves to be chosen (100, for example); it
  is the first argument, \<open>maxLimit\<close>.  The clamped limit takes the place of the requested one
  throughout: only so does the invariant of section 3, that a page beyond
  \<open>totalPages\<close> is empty, hold for every request.  The specification gives no
  result for other requests (\<open>None\<close>).
\<close>

definition paginate :: "nat \<Rightarrow> 'a list \<Rightarrow> jsnum \<Rightarrow> jsnum \<Rightarrow> 'a pageResult option" where
  "paginate maxLimit matching page limit =
     (case (page, limit) of
        (Num P, Num L) \<Rightarrow>
          if 1 \<le> P \<and> 1 \<le> L
          then (let applied = min (nat L) maxLimit
                in Some \<lparr>pr_items = take applied (drop ((nat P - 1) * applied) matching),
                           pr_totalItems = length matching,
                           pr_page = P,
                           pr_limit = int applied,
                           pr_totalPages = (length matching + applied - 1) div applied\<rparr>)
          else None
      | _ \<Rightarrow> None)"

text \<open>The executor of the specification, called the way the controllers call theirs.\<close>

definition specExecutor :: "nat \<Rightarrow> 'a list \<Rightarrow> paginateOptions \<Rightarrow> 'a pageResult option" where
  "specExecutor maxLimit matching options =
     paginate maxLimit matching (opt_page options) (opt_limit options)"

subsection \<open>Pipeline stages\<close>

datatype bson = BBool bool | BObjectId oid

datatype condition = Equals bson | Regex jsstring string | Exists bool

datatype filter = Fields "(string \<times> condition) list" | Or "filter list"

datatype expr = First string | Size string

text \<open>
  Field names and collection names are literals of the source, except the key of a sort
  stage and the pattern of a regular expression, which may come from the request.
  \<^verbatim>\<open>$lookup\<close> carries \<^verbatim>\<open>from\<close>, \<^verbatim>\<open>localField\<close>,
  \<^verbatim>\<open>foreignField\<close>, \<^verbatim>\<open>as\<close> and its inner pipeline (empty when it has none).
\<close>

datatype stage =
    Match filter
  | Sort "(jsstring \<times> int) list"
  | Lookup string string string string "stage list"
  | AddFields "(string \<times> expr) list"
  | Project "(string \<times> nat) list"

definition ownerLookup :: stage where
  "ownerLookup =
     Lookup ''users'' ''owner'' ''_id'' ''owner''
       [Project [(''fullName'', 1), (''username'', 1), (''avatar'', 1)]]"

definition ownerFirst :: stage where
  "ownerFirst = AddFields [(''owner'', First ''$owner'')]"

record videosQuery =
  vq_page :: "jsstring option"
  vq_limit :: "jsstring option"
  vq_query :: "jsstring option"
  vq_sortBy :: "jsstring option"
  vq_sortType :: "jsstring option"
  vq_userId :: "param option"

definition getAllVideos_pipeline :: "videosQuery \<Rightarrow> stage list" where
  "getAllVideos_pipeline q =
     [Match (Fields [(''isPublished'', Equals (BBool True))])] @
     (case vq_userId q of
        Some (ObjectId uid sp) \<Rightarrow> [Match (Fields [(''owner'', Equals (BObjectId uid))])]
      | _ \<Rightarrow> []) @
     (if truthy (vq_query q)
      then [Match (Or [Fields [(''title'', Regex (the (vq_query q)) ''i'')],
                       Fields [(''description'', Regex (the (vq_query q)) ''i'')]])]
      else []) @
     [Sort (if truthy (vq_sortBy q) \<and> truthy (vq_sortType q)
            then [(the (vq_sortBy q), if vq_sortType q = Some (js ''asc'') then 1 else - 1)]
            else [(js ''createdAt'', - 1)])] @
     [ownerLookup, ownerFirst]"

definition getVideoById_pipeline :: "oid \<Rightarrow> stage list" where
  "getVideoById_pipeline vid =
     [Match (Fields [(''_id'', Equals (BObjectId vid))]), ownerLookup, ownerFirst]"

definition getChannelVideos_pipeline :: "oid \<Rightarrow> jsstring \<Rightarrow> stage list" where
  "getChannelVideos_pipeline userId status =
     [Match (Fields
        ([(''owner'', Equals (BObjectId userId))] @
         (if status = js ''published'' then [(''isPublished'', Equals (BBool True))]
          else if status = js ''draft'' then [(''isPublished'', Equals (BBool False))]
          else []))),
      Lookup ''likes'' ''_id'' ''video'' ''likes'' [],
      Lookup ''comments'' ''_id'' ''video'' ''comments'' [],
      AddFields [(''likeCount'', Size ''$likes''), (''commentCount'', Size ''$comments'')],
      Project [(''likes'', 0), (''comments'', 0)],
      Sort [(js ''createdAt'', - 1)]]"

definition getLikedVideos_pipeline :: "oid \<Rightarrow> stage list" where
  "getLikedVideos_pipeline reqUser =
     [Match (Fields [(''likedBy'', Equals (BObjectId reqUser)), (''video'', Exists True)]),
      Lookup ''videos'' ''video'' ''_id'' ''video'' [ownerLookup, ownerFirst],
      AddFields [(''video'', First ''$video'')],
      Sort [(js ''createdAt'', - 1)]]"

definition getUserTweets_pipeline :: "oid \<Rightarrow> stage list" where
  "getUserTweets_pipeline userId =
     [Match (Fields [(''owner'', Equals (BObjectId userId))]),
      ownerLookup, ownerFirst,
      Sort [(js ''createdAt'', - 1)]]"

definition getUserPlaylists_pipeline :: "oid \<Rightarrow> stage list" where
  "getUserPlaylists_pipeline userId =
     [Match (Fields [(''owner'', Equals (BObjectId userId))]),
      ownerLookup,
      AddFields [(''owner'', First ''$owner''), (''videoCount'', Size ''$videos'')],
      Sort [(js ''createdAt'', - 1)]]"

definition getPlaylistById_pipeline :: "oid \<Rightarrow> stage list" where
  "getPlaylistById_pipeline pid =
     [Match (Fields [(''_id'', Equals (BObjectId pid))]),
      Lookup ''videos'' ''videos'' ''_id'' ''videos'' [ownerLookup, ownerFirst],
      ownerLookup, ownerFirst]"

definition getUserChannelSubscribers_pipeline :: "oid \<Rightarrow> stage list" where
  "getUserChannelSubscribers_pipeline channelId =
     [Match (Fields [(''channel'', Equals (BObjectId channelId))]),
      Lookup ''users'' ''subscriber'' ''_id'' ''subscriber''
        [Project [(''fullName'', 1), (''username'', 1), (''avatar'', 1)]],
      AddFields [(''subscriber'', First ''$subscriber'')],
      Sort [(js ''createdAt'', - 1)]]"

definition getSubscribedChannels_pipeline :: "oid \<Rightarrow> stage list" where
  "getSubscribedChannels_pipeline subscriberId =
     [Match (Fields [(''subscriber'', Equals (BObjectId subscriberId))]),
      Lookup ''users'' ''channel'' ''_id'' ''channel''
        [Project [(''fullName'', 1), (''username'', 1), (''avatar'', 1), (''coverImage'', 1)]],
      AddFields [(''channel'', First ''$channel'')],
      Sort [(js ''createdAt'', - 1)]]"

subsection \<open>The stage order of the pipeline builder\<close>

text \<open>
  The classes of stages that the fixed order of the builder speaks of: a match on field
  conditions is a base filter (0), a match on the \<^verbatim>\<open>$or\<close> of the two regular
  expressions is the search filter (1), then the sort (2), the stages of a join (3: the
  lookup and the added fields that reduce what was looked up) and the projection (4).
  A stage list follows the fixed order when these classes never decrease along it.
\<close>

fun stageClass :: "stage \<Rightarrow> nat" where
  "stageClass (Match (Fields conds)) = 0"
| "stageClass (Match (Or alternatives)) = 1"
| "stageClass (Sort keys) = 2"
| "stageClass (Lookup source localField foreignField as inner) = 3"
| "stageClass (AddFields added) = 3"
| "stageClass (Project shown) = 4"

definition fixedOrder :: "stage list \<Rightarrow> bool" where
  "fixedOrder pipeline = sorted (map stageClass pipeline)"

text \<open>
  The other order found in the controllers: base filter, joins and projection in the
  fixed order, and the sort by creation time, newest first, as the last stage.
\<close>

definition sortedLast :: "stage list \<Rightarrow> bool" where
  "sortedLast pipeline =
     (pipeline \<noteq> [] \<and> last pipeline = Sort [(js ''createdAt'', - 1)] \<and>
      fixedOrder (butlast pipeline) \<and> 2 \<notin> set (map stageClass (butlast pipeline)))"

subsection \<open>The paginated controllers\<close>

text \<open>
  Besides \<^verbatim>\<open>parseInt\<close>, two collaborators of the controllers are taken as
  parameters.  Running a pipeline is
  the storage engine's part: \<open>aggregate\<close> gives, for a collection, a pipeline and a
  store, the documents that the pipeline produces, in order.  Cutting a page out of them
  is the part of the model method \<^verbatim>\<open>aggregatePaginate\<close>, which receives the
  aggregate and the options.
\<close>

type_synonym 'r engine = "string \<Rightarrow> stage list \<Rightarrow> store \<Rightarrow> 'r list"

type_synonym ('r, 'p) executor = "'r list \<Rightarrow> paginateOptions \<Rightarrow> 'p"

definition getAllVideos :: "(jsstring \<Rightarrow> jsnum) \<Rightarrow> ('r, 'p) executor \<Rightarrow> 'r engine \<Rightarrow> videosQuery \<Rightarrow> 'p handler" where
  "getAllVideos parseInt aggregatePaginate aggregate q s =
     (let videoAggregate = aggregate ''videos'' (getAllVideos_pipeline q) s;
          options = pageOptions parseInt (vq_page q) (vq_limit q)
      in (s, Inr (ApiResponse 200 (aggregatePaginate videoAggregate options)
                ''Videos fetched successfully'')))"

definition getChannelVideos ::
  "(jsstring \<Rightarrow> jsnum) \<Rightarrow> ('r, 'p) executor \<Rightarrow> 'r engine \<Rightarrow> oid \<Rightarrow> jsstring option \<Rightarrow> jsstring option \<Rightarrow> jsstring option \<Rightarrow>
     'p handler" where
  "getChannelVideos parseInt aggregatePaginate aggregate reqUser page limit status s =
     (let options = pageOptions parseInt page limit
      in (s, Inr (ApiResponse 200
                (aggregatePaginate
                   (aggregate ''videos''
                      (getChannelVideos_pipeline reqUser
                         (case status of None \<Rightarrow> js ''all'' | Some st \<Rightarrow> st)) s)
                   options)
                ''Channel videos fetched successfully'')))"

definition getLikedVideos ::
  "(jsstring \<Rightarrow> jsnum) \<Rightarrow> ('r, 'p) executor \<Rightarrow> 'r engine \<Rightarrow> oid \<Rightarrow> jsstring option \<Rightarrow> jsstring option \<Rightarrow> 'p handler" where
  "getLikedVideos parseInt aggregatePaginate aggregate reqUser page limit s =
     (let options = pageOptions parseInt page limit
      in (s, Inr (ApiResponse 200
                (aggregatePaginate (aggregate ''likes'' (getLikedVideos_pipeline reqUser) s) options)
                ''Liked videos fetched successfully'')))"

definition getUserTweets ::
  "(jsstring \<Rightarrow> jsnum) \<Rightarrow> ('r, 'p) executor \<Rightarrow> 'r engine \<Rightarrow> param \<Rightarrow> jsstring option \<Rightarrow> jsstring option \<Rightarrow> 'p handler" where
  "getUserTweets parseInt aggregatePaginate aggregate userId page limit s =
     (case userId of
        Malformed \<Rightarrow> (s, Inl (ApiError 400 ''Invalid user ID''))
      | ObjectId uid sp \<Rightarrow>
          (case findById u_id (users s) uid of
             None \<Rightarrow> (s, Inl (ApiError 404 ''User not found''))
           | Some usr \<Rightarrow>
               (let options = pageOptions parseInt page limit
                in (s, Inr (ApiResponse 200
                          (aggregatePaginate (aggregate ''tweets'' (getUserTweets_pipeline uid) s)
                             options)
                          ''User tweets fetched successfully'')))))"

definition getUserPlaylists ::
  "(jsstring \<Rightarrow> jsnum) \<Rightarrow> ('r, 'p) executor \<Rightarrow> 'r engine \<Rightarrow> param \<Rightarrow> jsstring option \<Rightarrow> jsstring option \<Rightarrow> 'p handler" where
  "getUserPlaylists parseInt aggregatePaginate aggregate userId page limit s =
     (case userId of
        Malformed \<Rightarrow> (s, Inl (ApiError 400 ''Invalid user ID''))
      | ObjectId uid sp \<Rightarrow>
          (case findById u_id (users s) uid of
             None \<Rightarrow> (s, Inl (ApiError 404 ''User not found''))
           | Some usr \<Rightarrow>
               (let options = pageOptions parseInt page limit
                in (s, Inr (ApiResponse 200
                          (aggregatePaginate
                             (aggregate ''playlists'' (getUserPlaylists_pipeline uid) s) options)
                          ''User playlists fetched successfully'')))))"

definition getUserChannelSubscribers ::
  "(jsstring \<Rightarrow> jsnum) \<Rightarrow> ('r, 'p) executor \<Rightarrow> 'r engine \<Rightarrow> param \<Rightarrow> jsstring option \<Rightarrow> jsstring option \<Rightarrow> 'p handler" where
  "getUserChannelSubscribers parseInt aggregatePaginate aggregate channelId page limit s =
     (case channelId of
        Malformed \<Rightarrow> (s, Inl (ApiError 400 ''Invalid channel ID''))
      | ObjectId cid sp \<Rightarrow>
          (case findById u_id (users s) cid of
             None \<Rightarrow> (s, Inl (ApiError 404 ''Channel not found''))
           | Some channel \<Rightarrow>
               (let options = pageOptions parseInt page limit
                in (s, Inr (ApiResponse 200
                          (aggregatePaginate
                             (aggregate ''subscriptions'' (getUserChannelSubscribers_pipeline cid) s)
                             options)
                          ''Subscribers fetched successfully'')))))"

definition getSubscribedChannels ::
  "(jsstring \<Rightarrow> jsnum) \<Rightarrow> ('r, 'p) executor \<Rightarrow> 'r engine \<Rightarrow> param \<Rightarrow> jsstring option \<Rightarrow> jsstring option \<Rightarrow> 'p handler" where
  "getSubscribedChannels parseInt aggregatePaginate aggregate subscriberId page limit s =
     (case subscriberId of
        Malformed \<Rightarrow> (s, Inl (ApiError 400 ''Invalid subscriber ID''))
      | ObjectId sid sp \<Rightarrow>
          (case findById u_id (users s) sid of
             None \<Rightarrow> (s, Inl (ApiError 404 ''Subscriber not found''))
           | Some subscriber \<Rightarrow>
               (let options = pageOptions parseInt page limit
                in (s, Inr (ApiResponse 200
                          (aggregatePaginate
                             (aggregate ''subscriptions'' (getSubscribedChannels_pipeline sid) s)
                             options)
                          ''Subscribed channels fetched successfully'')))))"

text \<open>
  An outcome that serves page \<open>P\<close> of a matching set to a request with limit
  \<open>L\<close> under the ceiling \<open>C\<close>: status 200 with the page echoed, the size of the
  matching set, the applied limit \<open>min L C\<close>, and a page that holds that many items
  or, when fewer are left from its offset on, all that are left; in every case at most
  \<open>C\<close> items.
\<close>

definition servedPage ::
  "nat \<Rightarrow> 'r list \<Rightarrow> int \<Rightarrow> int \<Rightarrow> apiError + 'r pageResult option apiResponse \<Rightarrow> bool" where
  "servedPage C matching P L outcome =
     (case outcome of
        Inr (ApiResponse status (Some r) msg) \<Rightarrow>
          status = 200 \<and> pr_page r = P \<and> pr_limit r = min L (int C) \<and>
          pr_totalItems r = length matching \<and>
          length (pr_items r) =
            min (min (nat L) C) (length matching - (nat P - 1) * min (nat L) C) \<and>
          length (pr_items r) \<le> C
      | _ \<Rightarrow> False)"

section \<open>Further sample stores\<close>

text \<open>The sample store after user 2 has liked video 10.\<close>

definition likedStore :: store where
  "likedStore =
     sampleStore\<lparr>likes := [\<lparr>l_id = 0, l_video = Some 10, l_Comment = None, l_tweet = None,
                               l_likedBy = 2\<rparr>]\<rparr>"

section \<open>Properties of the controllers\<close>

subsection \<open>Lists, documents and edges\<close>

lemmas map_filter_Cons = map_filter_simps(1)

lemma map_filter_append: "List.map_filter f (xs @ ys) = List.map_filter f xs @ List.map_filter f ys"
  by (simp add: List.map_filter_def)

lemma set_map_filter: "set (List.map_filter f xs) = {y. \<exists>x\<in>set xs. f x = Some y}"
  by (induction xs) (auto simp: map_filter_Cons split: option.splits)

lemma find_Some_D: "find P xs = Some d \<Longrightarrow> d \<in> set xs \<and> P d"
  by (induction xs) (auto split: if_splits)

lemma find_None_D: "find P xs = None \<Longrightarrow> \<forall>d\<in>set xs. \<not> P d"
  by (induction xs) (auto split: if_splits)

lemma delete_is_remove1:
  "distinct (map idOf ds) \<Longrightarrow> d \<in> set ds \<Longrightarrow> findByIdAndDelete idOf (idOf d) ds = remove1 d ds"
  by (induction ds) (auto)

lemma distinct_map_filter_remove1:
  "distinct (List.map_filter f ds) \<Longrightarrow> distinct (List.map_filter f (remove1 d ds))"
  by (induction ds) (auto simp: map_filter_Cons set_map_filter split: option.splits dest: notin_set_remove1)

lemma set_map_filter_remove1:
  "set (List.map_filter f (remove1 d ds)) \<subseteq> set (List.map_filter f ds)"
  using set_remove1_subset[of d ds] by (auto simp: set_map_filter)

lemma gone_map_filter_remove1:
  "distinct (List.map_filter f ds) \<Longrightarrow> d \<in> set ds \<Longrightarrow> f d = Some e \<Longrightarrow> e \<notin> set (List.map_filter f (remove1 d ds))"
  by (induction ds) (auto simp: map_filter_Cons set_map_filter split: option.splits dest: notin_set_remove1)

lemma freshId_gt: "i \<in> set is \<Longrightarrow> i < freshId is"
  by (induction "is") auto

lemma freshId_notin: "freshId is \<notin> set is"
  using freshId_gt by blast

lemma edges_disjoint_simps:
  "set (List.map_filter subscriptionEdge xs) \<inter> set (List.map_filter videoLikeEdge ys) = {}"
  "set (List.map_filter subscriptionEdge xs) \<inter> set (List.map_filter commentLikeEdge ys) = {}"
  "set (List.map_filter subscriptionEdge xs) \<inter> set (List.map_filter tweetLikeEdge ys) = {}"
  "set (List.map_filter videoLikeEdge ys) \<inter> set (List.map_filter commentLikeEdge zs) = {}"
  "set (List.map_filter videoLikeEdge ys) \<inter> set (List.map_filter tweetLikeEdge zs) = {}"
  "set (List.map_filter commentLikeEdge ys) \<inter> set (List.map_filter tweetLikeEdge zs) = {}"
  by (auto simp: set_map_filter subscriptionEdge_def videoLikeEdge_def commentLikeEdge_def tweetLikeEdge_def)

lemma atMostOneEdge_iff:
  "atMostOneEdge s \<longleftrightarrow>
     distinct (List.map_filter subscriptionEdge (subscriptions s)) \<and>
     distinct (List.map_filter videoLikeEdge (likes s)) \<and>
     distinct (List.map_filter commentLikeEdge (likes s)) \<and>
     distinct (List.map_filter tweetLikeEdge (likes s))"
  unfolding atMostOneEdge_def edges_def
  by (simp add: edges_disjoint_simps Int_Un_distrib Int_Un_distrib2)

lemma present_Actor:
  "present s (u, Actor c, k) \<longleftrightarrow> k = FOLLOW \<and> (\<exists>d\<in>set (subscriptions s). s_subscriber d = u \<and> s_channel d = c)"
  by (auto simp: present_def edges_def set_map_filter subscriptionEdge_def videoLikeEdge_def commentLikeEdge_def tweetLikeEdge_def)

lemma present_VideoItem:
  "present s (u, VideoItem v, k) \<longleftrightarrow> k = LIKE \<and> (\<exists>d\<in>set (likes s). l_video d = Some v \<and> l_likedBy d = u)"
  by (auto simp: present_def edges_def set_map_filter subscriptionEdge_def videoLikeEdge_def commentLikeEdge_def tweetLikeEdge_def)

lemma present_CommentItem:
  "present s (u, CommentItem v, k) \<longleftrightarrow> k = LIKE \<and> (\<exists>d\<in>set (likes s). l_Comment d = Some v \<and> l_likedBy d = u)"
  by (auto simp: present_def edges_def set_map_filter subscriptionEdge_def videoLikeEdge_def commentLikeEdge_def tweetLikeEdge_def)

lemma present_TweetItem:
  "present s (u, TweetItem v, k) \<longleftrightarrow> k = LIKE \<and> (\<exists>d\<in>set (likes s). l_tweet d = Some v \<and> l_likedBy d = u)"
  by (auto simp: present_def edges_def set_map_filter subscriptionEdge_def videoLikeEdge_def commentLikeEdge_def tweetLikeEdge_def)

lemma distinct_delete: "distinct (map idOf ds) \<Longrightarrow> distinct (map idOf (findByIdAndDelete idOf i ds))"
proof (induction ds)
  case Nil
  then show ?case by simp
next
  case (Cons d ds)
  have "set (findByIdAndDelete idOf i ds) \<subseteq> set ds" for ds :: "'a list"
    by (induction ds) auto
  with Cons show ?case by auto
qed

lemma distinct_map_remove1: "distinct (map f xs) \<Longrightarrow> distinct (map f (remove1 x xs))"
proof (induction xs)
  case Nil
  then show ?case by simp
next
  case (Cons y ys)
  have "f ` set (remove1 x ys) \<subseteq> f ` set ys"
    using set_remove1_subset[of x ys] by blast
  with Cons show ?case by auto
qed

lemma toggleSubscription_step:
  assumes ids: "distinctIds s" and inv: "atMostOneEdge s"
    and ex: "findById u_id (users s) c \<noteq> None" and ne: "c \<noteq> u"
  fixes sp :: spelling
  defines "s' \<equiv> fst (toggleSubscription u (ObjectId c sp) s)"
    and "e \<equiv> (u, Actor c, FOLLOW)"
  shows "(\<exists>msg. snd (toggleSubscription u (ObjectId c sp) s) =
            Inr (ApiResponse 200 (IsSubscribed (\<not> present s e)) msg)) \<and>
      present s' e = (\<not> present s e) \<and> distinctIds s' \<and> atMostOneEdge s' \<and>
      (present s e \<longrightarrow> set (edges s') \<subseteq> set (edges s)) \<and>
      (\<not> present s e \<longrightarrow> set (edges s') = insert e (set (edges s)))"
proof (cases "find (\<lambda>d. s_subscriber d = u \<and> s_channel d = c) (subscriptions s)")
  case None
  then have absent: "\<not> present s e"
    by (auto simp: e_def present_Actor dest: find_None_D)
  have s': "s' = s\<lparr>subscriptions := subscriptions s @
               [\<lparr>s_id = freshId (map s_id (subscriptions s)), s_subscriber = u, s_channel = c\<rparr>]\<rparr>"
    using None ex ne by (auto simp: s'_def toggleSubscription_def findOne_def)
  have edges': "edges s' = List.map_filter subscriptionEdge (subscriptions s) @ e #
           List.map_filter videoLikeEdge (likes s) @
           List.map_filter commentLikeEdge (likes s) @
           List.map_filter tweetLikeEdge (likes s)"
    by (simp add: s' edges_def map_filter_append e_def subscriptionEdge_def)
  have notin: "e \<notin> set (edges s)" using absent by (simp add: present_def)
  have set': "set (edges s') = insert e (set (edges s))"
    unfolding edges' by (auto simp: edges_def)
  have "present s' e" by (simp add: present_def set')
  moreover have "atMostOneEdge s'"
    using inv notin unfolding atMostOneEdge_def edges' by (auto simp: edges_def)
  moreover have "distinctIds s'"
    using ids freshId_notin[of "map s_id (subscriptions s)"]
    by (simp add: distinctIds_def s')
  moreover have "\<exists>msg. snd (toggleSubscription u (ObjectId c sp) s) =
          Inr (ApiResponse 200 (IsSubscribed True) msg)"
    using None ex ne by (auto simp: toggleSubscription_def findOne_def)
  ultimately show ?thesis
    using absent set' by simp
next
  case (Some d)
  then have d: "d \<in> set (subscriptions s)" "subscriptionEdge d = Some e"
    by (auto simp: e_def subscriptionEdge_def dest: find_Some_D)
  then have pres: "present s e"
    by (auto simp: present_def edges_def set_map_filter)
  have s': "s' = s\<lparr>subscriptions := remove1 d (subscriptions s)\<rparr>"
    using Some ex ne ids d delete_is_remove1[of s_id "subscriptions s" d]
    by (auto simp: s'_def toggleSubscription_def findOne_def distinctIds_def)
  have dist: "distinct (List.map_filter subscriptionEdge (subscriptions s))"
    using inv by (simp add: atMostOneEdge_iff)
  have gone: "e \<notin> set (List.map_filter subscriptionEdge (remove1 d (subscriptions s)))"
    using gone_map_filter_remove1[OF dist d] .
  have "\<not> present s' e"
    using gone
    by (auto simp: present_def s' edges_def e_def set_map_filter videoLikeEdge_def
          commentLikeEdge_def tweetLikeEdge_def)
  moreover have "atMostOneEdge s'"
    using inv distinct_map_filter_remove1[OF dist, of d]
    by (simp add: atMostOneEdge_iff s')
  moreover have "distinctIds s'"
    using ids by (simp add: distinctIds_def s' distinct_map_remove1)
  moreover have "set (edges s') \<subseteq> set (edges s)"
    using set_map_filter_remove1[of subscriptionEdge d "subscriptions s"]
    by (auto simp: s' edges_def)
  moreover have "\<exists>msg. snd (toggleSubscription u (ObjectId c sp) s) =
          Inr (ApiResponse 200 (IsSubscribed False) msg)"
    using Some ex ne by (auto simp: toggleSubscription_def findOne_def)
  ultimately show ?thesis
    using pres by simp
qed

lemma delete_cases:
  "findByIdAndDelete idOf i ds = ds \<or>
   (\<exists>d\<in>set ds. idOf d = i \<and> findByIdAndDelete idOf i ds = remove1 d ds)"
  by (induction ds) auto

lemma createdOrDeleted_delete: "createdOrDeleted ds (findByIdAndDelete idOf i ds)"
  using delete_cases[of idOf i ds] by (auto simp: createdOrDeleted_def)

lemma createdOrDeleted_append: "createdOrDeleted ds (ds @ [d])"
  by (simp add: createdOrDeleted_def)

lemma createdOrDeleted_refl: "createdOrDeleted ds ds"
  by (simp add: createdOrDeleted_def)

lemma distinct_map_filter_delete:
  "distinct (List.map_filter f ds) \<Longrightarrow> distinct (List.map_filter f (findByIdAndDelete idOf i ds))"
  using delete_cases[of idOf i ds] distinct_map_filter_remove1[of f ds] by auto

lemma toggleSubscription_frame:
  "users (fst (toggleSubscription u p s)) = users s \<and>
   videos (fst (toggleSubscription u p s)) = videos s \<and>
   likes (fst (toggleSubscription u p s)) = likes s \<and>
   comments (fst (toggleSubscription u p s)) = comments s \<and>
   tweets (fst (toggleSubscription u p s)) = tweets s \<and>
   playlists (fst (toggleSubscription u p s)) = playlists s"
  by (simp add: toggleSubscription_def split: param.splits option.splits)

lemma toggleSubscription_shape:
  "createdOrDeleted (subscriptions s) (subscriptions (fst (toggleSubscription u p s)))"
  by (simp add: toggleSubscription_def createdOrDeleted_delete createdOrDeleted_append
        createdOrDeleted_refl split: param.splits option.splits)

lemma toggleSubscription_inv:
  assumes inv: "atMostOneEdge s"
  shows "atMostOneEdge (fst (toggleSubscription u p s))"
proof -
  have dist: "distinct (List.map_filter subscriptionEdge (subscriptions s))"
    using inv by (simp add: atMostOneEdge_iff)
  have new: "distinct (List.map_filter subscriptionEdge (subscriptions s @
        [\<lparr>s_id = i, s_subscriber = u, s_channel = c\<rparr>]))"
    if "find (\<lambda>d. s_subscriber d = u \<and> s_channel d = c) (subscriptions s) = None" for i c
    using dist find_None_D[OF that]
    by (auto simp: map_filter_append subscriptionEdge_def set_map_filter)
  have "distinct (List.map_filter subscriptionEdge (subscriptions (fst (toggleSubscription u p s))))"
    using dist new
    by (simp add: toggleSubscription_def findOne_def distinct_map_filter_delete
          split: param.splits option.splits)
  then show ?thesis
    using inv toggleSubscription_frame[of u p s] by (simp add: atMostOneEdge_iff)
qed

lemma toggleSubscription_ids:
  assumes ids: "distinctIds s"
  shows "distinctIds (fst (toggleSubscription u p s))"
proof -
  have "distinct (map s_id (subscriptions (fst (toggleSubscription u p s))))"
    using ids freshId_notin[of "map s_id (subscriptions s)"]
    by (simp add: toggleSubscription_def distinctIds_def distinct_delete
          split: param.splits option.splits)
  then show ?thesis
    using ids toggleSubscription_frame[of u p s] by (simp add: distinctIds_def)
qed

lemma toggleVideoLike_frame:
  "users (fst (toggleVideoLike u p s)) = users s \<and>
   videos (fst (toggleVideoLike u p s)) = videos s \<and>
   subscriptions (fst (toggleVideoLike u p s)) = subscriptions s \<and>
   comments (fst (toggleVideoLike u p s)) = comments s \<and>
   tweets (fst (toggleVideoLike u p s)) = tweets s \<and>
   playlists (fst (toggleVideoLike u p s)) = playlists s"
  by (simp add: toggleVideoLike_def split: param.splits option.splits)

lemma toggleVideoLike_shape:
  "createdOrDeleted (likes s) (likes (fst (toggleVideoLike u p s)))"
  by (simp add: toggleVideoLike_def createdOrDeleted_delete createdOrDeleted_append
        createdOrDeleted_refl split: param.splits option.splits)

lemma toggleVideoLike_inv:
  assumes inv: "atMostOneEdge s"
  shows "atMostOneEdge (fst (toggleVideoLike u p s))"
proof -
  have dist: "distinct (List.map_filter videoLikeEdge (likes s))"
    "distinct (List.map_filter commentLikeEdge (likes s))"
    "distinct (List.map_filter tweetLikeEdge (likes s))"
    using inv by (simp_all add: atMostOneEdge_iff)
  have new: "distinct (List.map_filter videoLikeEdge (likes s @ [\<lparr>l_id = i, l_video = Some x, l_Comment = None, l_tweet = None, l_likedBy = u\<rparr>])) \<and>
      distinct (List.map_filter commentLikeEdge (likes s @ [\<lparr>l_id = i, l_video = Some x, l_Comment = None, l_tweet = None, l_likedBy = u\<rparr>])) \<and>
      distinct (List.map_filter tweetLikeEdge (likes s @ [\<lparr>l_id = i, l_video = Some x, l_Comment = None, l_tweet = None, l_likedBy = u\<rparr>]))"
    if "find (\<lambda>d. l_video d = Some x \<and> l_likedBy d = u) (likes s) = None" for i x
    using dist find_None_D[OF that]
    by (auto simp: map_filter_append videoLikeEdge_def commentLikeEdge_def tweetLikeEdge_def
          set_map_filter)
  have "distinct (List.map_filter videoLikeEdge (likes (fst (toggleVideoLike u p s)))) \<and>
      distinct (List.map_filter commentLikeEdge (likes (fst (toggleVideoLike u p s)))) \<and>
      distinct (List.map_filter tweetLikeEdge (likes (fst (toggleVideoLike u p s))))"
    using dist new
    by (simp add: toggleVideoLike_def findOne_def distinct_map_filter_delete
          split: param.splits option.splits)
  then show ?thesis
    using inv toggleVideoLike_frame[of u p s] by (simp add: atMostOneEdge_iff)
qed

lemma toggleVideoLike_ids:
  assumes ids: "distinctIds s"
  shows "distinctIds (fst (toggleVideoLike u p s))"
proof -
  have "distinct (map l_id (likes (fst (toggleVideoLike u p s))))"
    using ids freshId_notin[of "map l_id (likes s)"]
    by (simp add: toggleVideoLike_def distinctIds_def distinct_delete
          split: param.splits option.splits)
  then show ?thesis
    using ids toggleVideoLike_frame[of u p s] by (simp add: distinctIds_def)
qed

lemma toggleVideoLike_step:
  fixes u :: oid and sp :: spelling
  assumes ids: "distinctIds s" and inv: "atMostOneEdge s"
    and ex: "findById v_id (videos s) x \<noteq> None"
  defines "s' \<equiv> fst (toggleVideoLike u (ObjectId x sp) s)"
    and "e \<equiv> (u, VideoItem x, LIKE)"
  shows "(\<exists>msg. snd (toggleVideoLike u (ObjectId x sp) s) =
            Inr (ApiResponse 200 (IsLiked (\<not> present s e)) msg)) \<and>
      present s' e = (\<not> present s e) \<and>
      (present s e \<longrightarrow> set (edges s') \<subseteq> set (edges s)) \<and>
      (\<not> present s e \<longrightarrow> set (edges s') = insert e (set (edges s)))"
proof (cases "find (\<lambda>d. l_video d = Some x \<and> l_likedBy d = u) (likes s)")
  case None
  then have absent: "\<not> present s e"
    by (auto simp: e_def present_VideoItem dest: find_None_D)
  have s': "s' = s\<lparr>likes := likes s @ [\<lparr>l_id = freshId (map l_id (likes s)), l_video = Some x, l_Comment = None, l_tweet = None, l_likedBy = u\<rparr>]\<rparr>"
    using None ex by (auto simp: s'_def toggleVideoLike_def findOne_def)
  have set': "set (edges s') = insert e (set (edges s))"
    by (auto simp: s' edges_def map_filter_append e_def videoLikeEdge_def commentLikeEdge_def
          tweetLikeEdge_def)
  have "present s' e" by (simp add: present_def set')
  moreover have "\<exists>msg. snd (toggleVideoLike u (ObjectId x sp) s) =
          Inr (ApiResponse 200 (IsLiked True) msg)"
    using None ex by (auto simp: toggleVideoLike_def findOne_def)
  ultimately show ?thesis
    using absent set' by simp
next
  case (Some d)
  then have d: "d \<in> set (likes s)" "videoLikeEdge d = Some e"
    by (auto simp: e_def videoLikeEdge_def dest: find_Some_D)
  then have pres: "present s e"
    by (auto simp: present_def edges_def set_map_filter)
  have s': "s' = s\<lparr>likes := remove1 d (likes s)\<rparr>"
    using Some ex ids d delete_is_remove1[of l_id "likes s" d]
    by (auto simp: s'_def toggleVideoLike_def findOne_def distinctIds_def)
  have dist: "distinct (List.map_filter videoLikeEdge (likes s))"
    using inv by (simp add: atMostOneEdge_iff)
  have gone: "e \<notin> set (List.map_filter videoLikeEdge (remove1 d (likes s)))"
    using gone_map_filter_remove1[OF dist d] .
  have "\<not> present s' e"
    using gone
    by (auto simp: present_def s' edges_def e_def set_map_filter videoLikeEdge_def
          commentLikeEdge_def tweetLikeEdge_def subscriptionEdge_def)
  moreover have "set (edges s') \<subseteq> set (edges s)"
    using set_map_filter_remove1[of videoLikeEdge d "likes s"]
      set_map_filter_remove1[of commentLikeEdge d "likes s"]
      set_map_filter_remove1[of tweetLikeEdge d "likes s"]
    by (auto simp: s' edges_def)
  moreover have "\<exists>msg. snd (toggleVideoLike u (ObjectId x sp) s) =
          Inr (ApiResponse 200 (IsLiked False) msg)"
    using Some ex by (auto simp: toggleVideoLike_def findOne_def)
  ultimately show ?thesis
    using pres by simp
qed

lemma toggleCommentLike_frame:
  "users (fst (toggleCommentLike u p s)) = users s \<and>
   videos (fst (toggleCommentLike u p s)) = videos s \<and>
   subscriptions (fst (toggleCommentLike u p s)) = subscriptions s \<and>
   comments (fst (toggleCommentLike u p s)) = comments s \<and>
   tweets (fst (toggleCommentLike u p s)) = tweets s \<and>
   playlists (fst (toggleCommentLike u p s)) = playlists s"
  by (simp add: toggleCommentLike_def split: param.splits option.splits)

lemma toggleCommentLike_shape:
  "createdOrDeleted (likes s) (likes (fst (toggleCommentLike u p s)))"
  by (simp add: toggleCommentLike_def createdOrDeleted_delete createdOrDeleted_append
        createdOrDeleted_refl split: param.splits option.splits)

lemma toggleCommentLike_inv:
  assumes inv: "atMostOneEdge s"
  shows "atMostOneEdge (fst (toggleCommentLike u p s))"
proof -
  have dist: "distinct (List.map_filter videoLikeEdge (likes s))"
    "distinct (List.map_filter commentLikeEdge (likes s))"
    "distinct (List.map_filter tweetLikeEdge (likes s))"
    using inv by (simp_all add: atMostOneEdge_iff)
  have new: "distinct (List.map_filter videoLikeEdge (likes s @ [\<lparr>l_id = i, l_video = None, l_Comment = Some x, l_tweet = None, l_likedBy = u\<rparr>])) \<and>
      distinct (List.map_filter commentLikeEdge (likes s @ [\<lparr>l_id = i, l_video = None, l_Comment = Some x, l_tweet = None, l_likedBy = u\<rparr>])) \<and>
      distinct (List.map_filter tweetLikeEdge (likes s @ [\<lparr>l_id = i, l_video = None, l_Comment = Some x, l_tweet = None, l_likedBy = u\<rparr>]))"
    if "find (\<lambda>d. l_Comment d = Some x \<and> l_likedBy d = u) (likes s) = None" for i x
    using dist find_None_D[OF that]
    by (auto simp: map_filter_append videoLikeEdge_def commentLikeEdge_def tweetLikeEdge_def
          set_map_filter)
  have "distinct (List.map_filter videoLikeEdge (likes (fst (toggleCommentLike u p s)))) \<and>
      distinct (List.map_filter commentLikeEdge (likes (fst (toggleCommentLike u p s)))) \<and>
      distinct (List.map_filter tweetLikeEdge (likes (fst (toggleCommentLike u p s))))"
    using dist new
    by (simp add: toggleCommentLike_def findOne_def distinct_map_filter_delete
          split: param.splits option.splits)
  then show ?thesis
    using inv toggleCommentLike_frame[of u p s] by (simp add: atMostOneEdge_iff)
qed

lemma toggleCommentLike_ids:
  assumes ids: "distinctIds s"
  shows "distinctIds (fst (toggleCommentLike u p s))"
proof -
  have "distinct (map l_id (likes (fst (toggleCommentLike u p s))))"
    using ids freshId_notin[of "map l_id (likes s)"]
    by (simp add: toggleCommentLike_def distinctIds_def distinct_delete
          split: param.splits option.splits)
  then show ?thesis
    using ids toggleCommentLike_frame[of u p s] by (simp add: distinctIds_def)
qed

lemma toggleCommentLike_step:
  fixes u :: oid and sp :: spelling
  assumes ids: "distinctIds s" and inv: "atMostOneEdge s"
    and ex: "findById c_id (comments s) x \<noteq> None"
  defines "s' \<equiv> fst (toggleCommentLike u (ObjectId x sp) s)"
    and "e \<equiv> (u, CommentItem x, LIKE)"
  shows "(\<exists>msg. snd (toggleCommentLike u (ObjectId x sp) s) =
            Inr (ApiResponse 200 (IsLiked (\<not> present s e)) msg)) \<and>
      present s' e = (\<not> present s e) \<and>
      (present s e \<longrightarrow> set (edges s') \<subseteq> set (edges s)) \<and>
      (\<not> present s e \<longrightarrow> set (edges s') = insert e (set (edges s)))"
proof (cases "find (\<lambda>d. l_Comment d = Some x \<and> l_likedBy d = u) (likes s)")
  case None
  then have absent: "\<not> present s e"
    by (auto simp: e_def present_CommentItem dest: find_None_D)
  have s': "s' = s\<lparr>likes := likes s @ [\<lparr>l_id = freshId (map l_id (likes s)), l_video = None, l_Comment = Some x, l_tweet = None, l_likedBy = u\<rparr>]\<rparr>"
    using None ex by (auto simp: s'_def toggleCommentLike_def findOne_def)
  have set': "set (edges s') = insert e (set (edges s))"
    by (auto simp: s' edges_def map_filter_append e_def videoLikeEdge_def commentLikeEdge_def
          tweetLikeEdge_def)
  have "present s' e" by (simp add: present_def set')
  moreover have "\<exists>msg. snd (toggleCommentLike u (ObjectId x sp) s) =
          Inr (ApiResponse 200 (IsLiked True) msg)"
    using None ex by (auto simp: toggleCommentLike_def findOne_def)
  ultimately show ?thesis
    using absent set' by simp
next
  case (Some d)
  then have d: "d \<in> set (likes s)" "commentLikeEdge d = Some e"
    by (auto simp: e_def commentLikeEdge_def dest: find_Some_D)
  then have pres: "present s e"
    by (auto simp: present_def edges_def set_map_filter)
  have s': "s' = s\<lparr>likes := remove1 d (likes s)\<rparr>"
    using Some ex ids d delete_is_remove1[of l_id "likes s" d]
    by (auto simp: s'_def toggleCommentLike_def findOne_def distinctIds_def)
  have dist: "distinct (List.map_filter commentLikeEdge (likes s))"
    using inv by (simp add: atMostOneEdge_iff)
  have gone: "e \<notin> set (List.map_filter commentLikeEdge (remove1 d (likes s)))"
    using gone_map_filter_remove1[OF dist d] .
  have "\<not> present s' e"
    using gone
    by (auto simp: present_def s' edges_def e_def set_map_filter videoLikeEdge_def
          commentLikeEdge_def tweetLikeEdge_def subscriptionEdge_def)
  moreover have "set (edges s') \<subseteq> set (edges s)"
    using set_map_filter_remove1[of videoLikeEdge d "likes s"]
      set_map_filter_remove1[of commentLikeEdge d "likes s"]
      set_map_filter_remove1[of tweetLikeEdge d "likes s"]
    by (auto simp: s' edges_def)
  moreover have "\<exists>msg. snd (toggleCommentLike u (ObjectId x sp) s) =
          Inr (ApiResponse 200 (IsLiked False) msg)"
    using Some ex by (auto simp: toggleCommentLike_def findOne_def)
  ultimately show ?thesis
    using pres by simp
qed

lemma toggleTweetLike_frame:
  "users (fst (toggleTweetLike u p s)) = users s \<and>
   videos (fst (toggleTweetLike u p s)) = videos s \<and>
   subscriptions (fst (toggleTweetLike u p s)) = subscriptions s \<and>
   comments (fst (toggleTweetLike u p s)) = comments s \<and>
   tweets (fst (toggleTweetLike u p s)) = tweets s \<and>
   playlists (fst (toggleTweetLike u p s)) = playlists s"
  by (simp add: toggleTweetLike_def split: param.splits option.splits)

lemma toggleTweetLike_shape:
  "createdOrDeleted (likes s) (likes (fst (toggleTweetLike u p s)))"
  by (simp add: toggleTweetLike_def createdOrDeleted_delete createdOrDeleted_append
        createdOrDeleted_refl split: param.splits option.splits)

lemma toggleTweetLike_inv:
  assumes inv: "atMostOneEdge s"
  shows "atMostOneEdge (fst (toggleTweetLike u p s))"
proof -
  have dist: "distinct (List.map_filter videoLikeEdge (likes s))"
    "distinct (List.map_filter commentLikeEdge (likes s))"
    "distinct (List.map_filter tweetLikeEdge (likes s))"
    using inv by (simp_all add: atMostOneEdge_iff)
  have new: "distinct (List.map_filter videoLikeEdge (likes s @ [\<lparr>l_id = i, l_video = None, l_Comment = None, l_tweet = Some x, l_likedBy = u\<rparr>])) \<and>
      distinct (List.map_filter commentLikeEdge (likes s @ [\<lparr>l_id = i, l_video = None, l_Comment = None, l_tweet = Some x, l_likedBy = u\<rparr>])) \<and>
      distinct (List.map_filter tweetLikeEdge (likes s @ [\<lparr>l_id = i, l_video = None, l_Comment = None, l_tweet = Some x, l_likedBy = u\<rparr>]))"
    if "find (\<lambda>d. l_tweet d = Some x \<and> l_likedBy d = u) (likes s) = None" for i x
    using dist find_None_D[OF that]
    by (auto simp: map_filter_append videoLikeEdge_def commentLikeEdge_def tweetLikeEdge_def
          set_map_filter)
  have "distinct (List.map_filter videoLikeEdge (likes (fst (toggleTweetLike u p s)))) \<and>
      distinct (List.map_filter commentLikeEdge (likes (fst (toggleTweetLike u p s)))) \<and>
      distinct (List.map_filter tweetLikeEdge (likes (fst (toggleTweetLike u p s))))"
    using dist new
    by (simp add: toggleTweetLike_def findOne_def distinct_map_filter_delete
          split: param.splits option.splits)
  then show ?thesis
    using inv toggleTweetLike_frame[of u p s] by (simp add: atMostOneEdge_iff)
qed

lemma toggleTweetLike_ids:
  assumes ids: "distinctIds s"
  shows "distinctIds (fst (toggleTweetLike u p s))"
proof -
  have "distinct (map l_id (likes (fst (toggleTweetLike u p s))))"
    using ids freshId_notin[of "map l_id (likes s)"]
    by (simp add: toggleTweetLike_def distinctIds_def distinct_delete
          split: param.splits option.splits)
  then show ?thesis
    using ids toggleTweetLike_frame[of u p s] by (simp add: distinctIds_def)
qed

lemma toggleTweetLike_step:
  fixes u :: oid and sp :: spelling
  assumes ids: "distinctIds s" and inv: "atMostOneEdge s"
    and ex: "findById t_id (tweets s) x \<noteq> None"
  defines "s' \<equiv> fst (toggleTweetLike u (ObjectId x sp) s)"
    and "e \<equiv> (u, TweetItem x, LIKE)"
  shows "(\<exists>msg. snd (toggleTweetLike u (ObjectId x sp) s) =
            Inr (ApiResponse 200 (IsLiked (\<not> present s e)) msg)) \<and>
      present s' e = (\<not> present s e) \<and>
      (present s e \<longrightarrow> set (edges s') \<subseteq> set (edges s)) \<and>
      (\<not> present s e \<longrightarrow> set (edges s') = insert e (set (edges s)))"
proof (cases "find (\<lambda>d. l_tweet d = Some x \<and> l_likedBy d = u) (likes s)")
  case None
  then have absent: "\<not> present s e"
    by (auto simp: e_def present_TweetItem dest: find_None_D)
  have s': "s' = s\<lparr>likes := likes s @ [\<lparr>l_id = freshId (map l_id (likes s)), l_video = None, l_Comment = None, l_tweet = Some x, l_likedBy = u\<rparr>]\<rparr>"
    using None ex by (auto simp: s'_def toggleTweetLike_def findOne_def)
  have set': "set (edges s') = insert e (set (edges s))"
    by (auto simp: s' edges_def map_filter_append e_def videoLikeEdge_def commentLikeEdge_def
          tweetLikeEdge_def)
  have "present s' e" by (simp add: present_def set')
  moreover have "\<exists>msg. snd (toggleTweetLike u (ObjectId x sp) s) =
          Inr (ApiResponse 200 (IsLiked True) msg)"
    using None ex by (auto simp: toggleTweetLike_def findOne_def)
  ultimately show ?thesis
    using absent set' by simp
next
  case (Some d)
  then have d: "d \<in> set (likes s)" "tweetLikeEdge d = Some e"
    by (auto simp: e_def tweetLikeEdge_def dest: find_Some_D)
  then have pres: "present s e"
    by (auto simp: present_def edges_def set_map_filter)
  have s': "s' = s\<lparr>likes := remove1 d (likes s)\<rparr>"
    using Some ex ids d delete_is_remove1[of l_id "likes s" d]
    by (auto simp: s'_def toggleTweetLike_def findOne_def distinctIds_def)
  have dist: "distinct (List.map_filter tweetLikeEdge (likes s))"
    using inv by (simp add: atMostOneEdge_iff)
  have gone: "e \<notin> set (List.map_filter tweetLikeEdge (remove1 d (likes s)))"
    using gone_map_filter_remove1[OF dist d] .
  have "\<not> present s' e"
    using gone
    by (auto simp: present_def s' edges_def e_def set_map_filter videoLikeEdge_def
          commentLikeEdge_def tweetLikeEdge_def subscriptionEdge_def)
  moreover have "set (edges s') \<subseteq> set (edges s)"
    using set_map_filter_remove1[of videoLikeEdge d "likes s"]
      set_map_filter_remove1[of commentLikeEdge d "likes s"]
      set_map_filter_remove1[of tweetLikeEdge d "likes s"]
    by (auto simp: s' edges_def)
  moreover have "\<exists>msg. snd (toggleTweetLike u (ObjectId x sp) s) =
          Inr (ApiResponse 200 (IsLiked False) msg)"
    using Some ex by (auto simp: toggleTweetLike_def findOne_def)
  ultimately show ?thesis
    using pres by simp
qed

subsection \<open>The toggle engine\<close>

lemma toggleEdge_frame:
  "users (fst (toggleEdge u sp t s)) = users s \<and>
   videos (fst (toggleEdge u sp t s)) = videos s \<and>
   comments (fst (toggleEdge u sp t s)) = comments s \<and>
   tweets (fst (toggleEdge u sp t s)) = tweets s \<and>
   playlists (fst (toggleEdge u sp t s)) = playlists s"
  using toggleSubscription_frame toggleVideoLike_frame toggleCommentLike_frame
    toggleTweetLike_frame
  by (cases t) simp_all

lemma toggleEdge_wellformed:
  assumes "distinctIds s" and "atMostOneEdge s" and "targetExists s t"
  shows "distinctIds (fst (toggleEdge u sp t s)) \<and> atMostOneEdge (fst (toggleEdge u sp t s)) \<and>
    targetExists (fst (toggleEdge u sp t s)) t"
proof -
  have "distinctIds (fst (toggleEdge u sp t s))"
    using assms(1) toggleSubscription_ids toggleVideoLike_ids toggleCommentLike_ids
      toggleTweetLike_ids
    by (cases t) simp_all
  moreover have "atMostOneEdge (fst (toggleEdge u sp t s))"
    using assms(2) toggleSubscription_inv toggleVideoLike_inv toggleCommentLike_inv
      toggleTweetLike_inv
    by (cases t) simp_all
  moreover have "targetExists (fst (toggleEdge u sp t s)) t"
    using assms(3) toggleEdge_frame[of u sp t s] by (cases t) simp_all
  ultimately show ?thesis by simp
qed

lemma toggleEdge_step:
  assumes ids: "distinctIds s" and inv: "atMostOneEdge s"
    and ex: "targetExists s t" and valid: "t \<noteq> Actor u"
  shows "(\<exists>msg. snd (toggleEdge u sp t s) =
            Inr (ApiResponse 200 (reported t (\<not> present s (u, t, kindOf t))) msg)) \<and>
      present (fst (toggleEdge u sp t s)) (u, t, kindOf t) = (\<not> present s (u, t, kindOf t)) \<and>
      (present s (u, t, kindOf t) \<longrightarrow> set (edges (fst (toggleEdge u sp t s))) \<subseteq> set (edges s)) \<and>
      (\<not> present s (u, t, kindOf t) \<longrightarrow>
         set (edges (fst (toggleEdge u sp t s))) = insert (u, t, kindOf t) (set (edges s)))"
proof (cases t)
  case (Actor c)
  with valid have "c \<noteq> u" by simp
  with toggleSubscription_step[OF ids inv, of c u sp] ex Actor show ?thesis by simp
next
  case (VideoItem v)
  with toggleVideoLike_step[OF ids inv, of v u sp] ex show ?thesis by simp
next
  case (CommentItem c)
  with toggleCommentLike_step[OF ids inv, of c u sp] ex show ?thesis by simp
next
  case (TweetItem x)
  with toggleTweetLike_step[OF ids inv, of x u sp] ex show ?thesis by simp
qed

lemma repeatRequest_toggleEdge:
  assumes "distinctIds s" and "atMostOneEdge s" and "targetExists s t" and "t \<noteq> Actor u"
  shows "present (fst (repeatRequest n (toggleEdge u sp t) s)) (u, t, kindOf t) =
           (if even n then present s (u, t, kindOf t) else \<not> present s (u, t, kindOf t)) \<and>
         list_all succeeded (snd (repeatRequest n (toggleEdge u sp t) s))"
  using assms
proof (induction n arbitrary: s)
  case 0
  then show ?case by simp
next
  case (Suc n)
  let ?s1 = "fst (toggleEdge u sp t s)"
  have wf: "distinctIds ?s1 \<and> atMostOneEdge ?s1 \<and> targetExists ?s1 t"
    using toggleEdge_wellformed[OF Suc.prems(1-3), where sp = sp] .
  have step: "present ?s1 (u, t, kindOf t) = (\<not> present s (u, t, kindOf t))"
    "succeeded (snd (toggleEdge u sp t s))"
    using toggleEdge_step[OF Suc.prems, where sp = sp] by auto
  have ih: "present (fst (repeatRequest n (toggleEdge u sp t) ?s1)) (u, t, kindOf t) =
           (if even n then present ?s1 (u, t, kindOf t) else \<not> present ?s1 (u, t, kindOf t))"
    "list_all succeeded (snd (repeatRequest n (toggleEdge u sp t) ?s1))"
    using Suc.IH[of ?s1] wf Suc.prems(4) by simp_all
  show ?case
    using ih step by (simp add: split_beta)
qed

text \<open>
  C1.  Let the store give its documents distinct identifiers and hold at most one edge
  per triple, let the target of the triple (source, target, kind) exist, and let the
  triple not be a follow of oneself.  Then one toggle of the triple, however the request
  spells the target's id, succeeds, reports the
  negation of the triple's presence and leaves the triple in that state: a present edge
  is deleted (and no edge appears), an absent one is created (and it is the only new
  edge).  Sent \<open>n\<close> times in a row, all \<open>n\<close> toggles succeed and the triple ends
  in its original state when \<open>n\<close> is even and in the flipped state when \<open>n\<close> is odd.
\<close>

theorem toggle_flips_presence:
  assumes "distinctIds s" and "atMostOneEdge s" and "targetExists s t" and "t \<noteq> Actor source"
  shows "(\<exists>msg. snd (toggleEdge source sp t s) =
            Inr (ApiResponse 200 (reported t (\<not> present s (source, t, kindOf t))) msg)) \<and>
      present (fst (toggleEdge source sp t s)) (source, t, kindOf t) =
        (\<not> present s (source, t, kindOf t)) \<and>
      (present s (source, t, kindOf t) \<longrightarrow>
         set (edges (fst (toggleEdge source sp t s))) \<subseteq> set (edges s)) \<and>
      (\<not> present s (source, t, kindOf t) \<longrightarrow>
         set (edges (fst (toggleEdge source sp t s))) = insert (source, t, kindOf t) (set (edges s))) \<and>
      present (fst (repeatRequest n (toggleEdge source sp t) s)) (source, t, kindOf t) =
        (if even n then present s (source, t, kindOf t) else \<not> present s (source, t, kindOf t)) \<and>
      list_all succeeded (snd (repeatRequest n (toggleEdge source sp t) s))"
  using toggleEdge_step[OF assms, where sp = sp]
    repeatRequest_toggleEdge[OF assms, where sp = sp and n = n] by simp

lemma sampleStore_wellformed:
  "distinctIds sampleStore" "atMostOneEdge sampleStore"
  "targetExists sampleStore (VideoItem 10)"
  by (simp_all add: sampleStore_def distinctIds_def atMostOneEdge_def edges_def findById_def
      sampleVideo_def)

theorem toggle_flips_presence_witness:
  "distinctIds sampleStore \<and> atMostOneEdge sampleStore \<and>
   targetExists sampleStore (VideoItem 10) \<and> VideoItem 10 \<noteq> Actor 2 \<and>
   \<not> present sampleStore (2, VideoItem 10, LIKE) \<and>
   present (fst (toggleEdge 2 Canonical (VideoItem 10) sampleStore)) (2, VideoItem 10, LIKE) \<and>
   present (fst (repeatRequest 3 (toggleEdge 2 Canonical (VideoItem 10)) sampleStore)) (2, VideoItem 10, LIKE) \<and>
   \<not> present (fst (repeatRequest 4 (toggleEdge 2 Canonical (VideoItem 10)) sampleStore)) (2, VideoItem 10, LIKE)"
proof -
  have valid: "VideoItem 10 \<noteq> Actor 2" by simp
  have absent: "\<not> present sampleStore (2, VideoItem 10, LIKE)"
    by (simp add: present_def edges_def sampleStore_def)
  show ?thesis
    using toggle_flips_presence[OF sampleStore_wellformed valid, where sp = Canonical and n = 3]
      toggle_flips_presence[OF sampleStore_wellformed valid, where sp = Canonical and n = 4]
      sampleStore_wellformed absent
    by simp
qed

text \<open>
  C2.  On a store that holds at most one edge per triple, each of the four toggle
  controllers, whatever the caller and the route parameter (a malformed text, an id that
  names nothing, the caller's own id in either spelling), leaves a store that holds at
  most one edge per triple; and it changes the collections of edge documents only by
  appending one document or by taking one document out, so no stored edge is updated.
\<close>

theorem toggles_preserve_at_most_one_edge:
  assumes "atMostOneEdge s"
  shows "atMostOneEdge (fst (toggleSubscription u p s)) \<and>
      edgesOnlyCreatedOrDeleted s (fst (toggleSubscription u p s)) \<and>
      atMostOneEdge (fst (toggleVideoLike u p s)) \<and>
      edgesOnlyCreatedOrDeleted s (fst (toggleVideoLike u p s)) \<and>
      atMostOneEdge (fst (toggleCommentLike u p s)) \<and>
      edgesOnlyCreatedOrDeleted s (fst (toggleCommentLike u p s)) \<and>
      atMostOneEdge (fst (toggleTweetLike u p s)) \<and>
      edgesOnlyCreatedOrDeleted s (fst (toggleTweetLike u p s))"
proof -
  have "edgesOnlyCreatedOrDeleted s (fst (toggleSubscription u p s))"
    using toggleSubscription_shape[of s u p] toggleSubscription_frame[of u p s]
    by (simp add: edgesOnlyCreatedOrDeleted_def createdOrDeleted_refl)
  moreover have "edgesOnlyCreatedOrDeleted s (fst (toggleVideoLike u p s))"
    using toggleVideoLike_shape[of s u p] toggleVideoLike_frame[of u p s]
    by (simp add: edgesOnlyCreatedOrDeleted_def createdOrDeleted_refl)
  moreover have "edgesOnlyCreatedOrDeleted s (fst (toggleCommentLike u p s))"
    using toggleCommentLike_shape[of s u p] toggleCommentLike_frame[of u p s]
    by (simp add: edgesOnlyCreatedOrDeleted_def createdOrDeleted_refl)
  moreover have "edgesOnlyCreatedOrDeleted s (fst (toggleTweetLike u p s))"
    using toggleTweetLike_shape[of s u p] toggleTweetLike_frame[of u p s]
    by (simp add: edgesOnlyCreatedOrDeleted_def createdOrDeleted_refl)
  ultimately show ?thesis
    using toggleSubscription_inv[OF assms] toggleVideoLike_inv[OF assms]
      toggleCommentLike_inv[OF assms] toggleTweetLike_inv[OF assms]
    by simp
qed

theorem toggles_preserve_at_most_one_edge_witness:
  "atMostOneEdge sampleStore \<and>
   atMostOneEdge (fst (toggleCommentLike 1 (ObjectId 20 Canonical) sampleStore)) \<and>
   likes (fst (toggleCommentLike 1 (ObjectId 20 Canonical) sampleStore)) =
     [\<lparr>l_id = 0, l_video = None, l_Comment = Some 20, l_tweet = None, l_likedBy = 1\<rparr>] \<and>
   atMostOneEdge (fst (toggleSubscription 1 (ObjectId 1 Variant) sampleStore)) \<and>
   subscriptions (fst (toggleSubscription 1 (ObjectId 1 Variant) sampleStore)) =
     [\<lparr>s_id = 0, s_subscriber = 1, s_channel = 1\<rparr>] \<and>
   toggleSubscription 1 (ObjectId 1 Canonical) sampleStore =
     (sampleStore, Inl (ApiError 400 ''You cannot subscribe to your own channel''))"
proof -
  have "likes (fst (toggleCommentLike 1 (ObjectId 20 Canonical) sampleStore)) =
     [\<lparr>l_id = 0, l_video = None, l_Comment = Some 20, l_tweet = None, l_likedBy = 1\<rparr>]"
    by (simp add: toggleCommentLike_def sampleStore_def findById_def findOne_def)
  moreover have "subscriptions (fst (toggleSubscription 1 (ObjectId 1 Variant) sampleStore)) =
     [\<lparr>s_id = 0, s_subscriber = 1, s_channel = 1\<rparr>]"
    by (simp add: toggleSubscription_def sampleStore_def sampleUsers_def findById_def findOne_def)
  moreover have "toggleSubscription 1 (ObjectId 1 Canonical) sampleStore =
     (sampleStore, Inl (ApiError 400 ''You cannot subscribe to your own channel''))"
    by (simp add: toggleSubscription_def sampleStore_def sampleUsers_def findById_def)
  ultimately show ?thesis
    using toggles_preserve_at_most_one_edge[OF sampleStore_wellformed(2), of 1
        "ObjectId 20 Canonical"]
      toggles_preserve_at_most_one_edge[OF sampleStore_wellformed(2), of 1
        "ObjectId 1 Variant"]
      sampleStore_wellformed(2)
    by simp
qed

subsection \<open>Lookup, update and delete by id\<close>

lemma findById_Some_D: "findById idOf ds i = Some d \<Longrightarrow> d \<in> set ds \<and> idOf d = i"
  unfolding findById_def by (auto dest: find_Some_D)

lemma findByIdAndUpdate_None:
  "findById idOf ds i = None \<Longrightarrow> findByIdAndUpdate idOf i upd ds = ds"
  unfolding findById_def by (induction ds) (auto split: if_splits)

lemma findByIdAndUpdate_Some:
  "findById idOf ds i = Some d \<Longrightarrow>
     \<exists>k<length ds. ds ! k = d \<and> findByIdAndUpdate idOf i upd ds = ds[k := upd d]"
  unfolding findById_def
proof (induction ds)
  case Nil
  then show ?case by simp
next
  case (Cons a ds)
  show ?case
  proof (cases "idOf a = i")
    case True
    with Cons.prems have "a = d" by simp
    with True have "(a # ds) ! 0 = d \<and> findByIdAndUpdate idOf i upd (a # ds) = (a # ds)[0 := upd d]"
      by simp
    then show ?thesis by blast
  next
    case False
    with Cons obtain k where k: "k < length ds" "ds ! k = d"
      "findByIdAndUpdate idOf i upd ds = ds[k := upd d]" by auto
    with False have "Suc k < length (a # ds) \<and> (a # ds) ! Suc k = d \<and>
        findByIdAndUpdate idOf i upd (a # ds) = (a # ds)[Suc k := upd d]"
      by simp
    then show ?thesis by blast
  qed
qed

lemma findById_after_update:
  "findById idOf ds i = Some d \<Longrightarrow> idOf (upd d) = i \<Longrightarrow>
     findById idOf (findByIdAndUpdate idOf i upd ds) i = Some (upd d)"
  unfolding findById_def by (induction ds) (auto split: if_splits)

lemma findByIdAndDelete_found:
  "findById idOf ds i = Some d \<Longrightarrow> findByIdAndDelete idOf i ds = remove1 d ds"
  unfolding findById_def by (induction ds) (auto split: if_splits dest: find_Some_D)

lemma first_filter: "first (filter P xs) = find P xs"
  by (induction xs) auto

lemma first_map: "first (map f xs) = map_option f (first xs)"
  by (cases xs) auto

subsection \<open>Fetching a video\<close>

text \<open>
  C10.  Fetching an existing video by its id answers with the video (its owner looked up)
  and, as a side effect, replaces the stored video by the same document with its view
  counter one higher: one position of the video collection changes, in that one field,
  and no other collection changes.  When no video has the id the request fails with
  status 404 and the store is left as it was.
\<close>

theorem getVideoById_increments_views:
  "(findById v_id (videos s) vid = Some video \<longrightarrow>
      snd (getVideoById (ObjectId vid sp) s) =
        Inr (ApiResponse 200
               (Some (video\<lparr>v_views := v_views video + 1\<rparr>,
                      first (lookupOwner (users s) (v_owner video))))
               ''Video fetched successfully'') \<and>
      fst (getVideoById (ObjectId vid sp) s) =
        s\<lparr>videos := videos (fst (getVideoById (ObjectId vid sp) s))\<rparr> \<and>
      (\<exists>k<length (videos s). videos s ! k = video \<and>
         videos (fst (getVideoById (ObjectId vid sp) s)) =
           (videos s)[k := video\<lparr>v_views := v_views video + 1\<rparr>]) \<and>
      findById v_id (videos (fst (getVideoById (ObjectId vid sp) s))) vid =
        Some (video\<lparr>v_views := v_views video + 1\<rparr>)) \<and>
   (findById v_id (videos s) vid = None \<longrightarrow>
      getVideoById (ObjectId vid sp) s = (s, Inl (ApiError 404 ''Video not found'')))"
proof (intro conjI impI)
  assume "findById v_id (videos s) vid = None"
  then show "getVideoById (ObjectId vid sp) s = (s, Inl (ApiError 404 ''Video not found''))"
    by (simp add: getVideoById_def)
next
  let ?upd = "\<lambda>v. v\<lparr>v_views := v_views v + 1\<rparr>"
  let ?vs = "findByIdAndUpdate v_id vid ?upd (videos s)"
  assume found: "findById v_id (videos s) vid = Some video"
  have idw: "v_id video = vid" using findById_Some_D[OF found] by simp
  have after: "findById v_id ?vs vid = Some (?upd video)"
    using findById_after_update[OF found, of ?upd] idw by simp
  have fst: "fst (getVideoById (ObjectId vid sp) s) = s\<lparr>videos := ?vs\<rparr>"
    using found by (simp add: getVideoById_def Let_def)
  have data: "first (aggregateVideoWithOwner (s\<lparr>videos := ?vs\<rparr>) vid) =
      Some (?upd video, first (lookupOwner (users s) (v_owner video)))"
    using after by (simp add: aggregateVideoWithOwner_def first_map first_filter findById_def)
  show "snd (getVideoById (ObjectId vid sp) s) =
      Inr (ApiResponse 200 (Some (?upd video, first (lookupOwner (users s) (v_owner video))))
             ''Video fetched successfully'')"
    using found data by (simp add: getVideoById_def Let_def)
  show "fst (getVideoById (ObjectId vid sp) s) =
      s\<lparr>videos := videos (fst (getVideoById (ObjectId vid sp) s))\<rparr>"
    by (simp add: fst)
  show "\<exists>k<length (videos s). videos s ! k = video \<and>
      videos (fst (getVideoById (ObjectId vid sp) s)) = (videos s)[k := ?upd video]"
    using findByIdAndUpdate_Some[OF found, of ?upd] by (simp add: fst)
  show "findById v_id (videos (fst (getVideoById (ObjectId vid sp) s))) vid = Some (?upd video)"
    using after by (simp add: fst)
qed

theorem getVideoById_increments_views_witness:
  "findById v_id (videos sampleStore) 10 = Some sampleVideo \<and>
   videos (fst (getVideoById (ObjectId 10 Canonical) sampleStore)) = [sampleVideo\<lparr>v_views := 8\<rparr>] \<and>
   findById v_id (videos sampleStore) 11 = None \<and>
   getVideoById (ObjectId 11 Canonical) sampleStore = (sampleStore, Inl (ApiError 404 ''Video not found''))"
proof -
  have found: "findById v_id (videos sampleStore) 10 = Some sampleVideo"
    by (simp add: sampleStore_def sampleVideo_def findById_def)
  have missing: "findById v_id (videos sampleStore) 11 = None"
    by (simp add: sampleStore_def sampleVideo_def findById_def)
  have len: "length (videos sampleStore) = 1" "v_views sampleVideo = 7"
    by (simp_all add: sampleStore_def sampleVideo_def)
  show ?thesis
    using getVideoById_increments_views[where s = sampleStore and vid = 10
        and video = sampleVideo and sp = Canonical]
      getVideoById_increments_views[where s = sampleStore and vid = 11
        and video = sampleVideo and sp = Canonical] found missing len
    by (auto simp: sampleStore_def)
qed

subsection \<open>Channel statistics\<close>

lemma ownedVideoIds_set:
  "set (ownedVideoIds vs u) = {i. \<exists>v\<in>set vs. v_owner v = u \<and> v_id v = i}"
  by (auto simp: ownedVideoIds_def)

lemma firstOrZero_aggregateTotalViews:
  "firstOrZero (aggregateTotalViews vs u) = sum_list (map v_views (filter (\<lambda>v. v_owner v = u) vs))"
  by (simp add: aggregateTotalViews_def split: list.splits)

text \<open>
  C9.  The channel statistics request never fails and leaves the store as it is.  Its
  answer counts the videos owned by the user, sums their view counters, counts the
  subscriptions to the user's channel, and counts the likes and the comments whose video
  is one owned by the user.  For a user who owns no video and has no subscriber all five
  values are zero.
\<close>

theorem getChannelStats_counts:
  "fst (getChannelStats u s) = s \<and>
   (\<exists>stats. snd (getChannelStats u s) =
        Inr (ApiResponse 200 stats ''Channel stats fetched successfully'') \<and>
      totalVideos stats = length (filter (\<lambda>v. v_owner v = u) (videos s)) \<and>
      totalViews stats = sum_list (map v_views (filter (\<lambda>v. v_owner v = u) (videos s))) \<and>
      totalSubscribers stats = length (filter (\<lambda>d. s_channel d = u) (subscriptions s)) \<and>
      totalLikes stats =
        length (filter (\<lambda>d. \<exists>v\<in>set (videos s). v_owner v = u \<and> l_video d = Some (v_id v)) (likes s)) \<and>
      totalComments stats =
        length (filter (\<lambda>d. \<exists>v\<in>set (videos s). v_owner v = u \<and> c_video d = v_id v) (comments s)) \<and>
      (filter (\<lambda>v. v_owner v = u) (videos s) = [] \<and>
       filter (\<lambda>d. s_channel d = u) (subscriptions s) = [] \<longrightarrow>
         stats = \<lparr>totalVideos = 0, totalViews = 0, totalSubscribers = 0, totalLikes = 0,
                   totalComments = 0\<rparr>))"
proof -
  let ?owned = "filter (\<lambda>v. v_owner v = u) (videos s)"
  let ?likes = "filter (\<lambda>d. \<exists>v\<in>set (videos s). v_owner v = u \<and> l_video d = Some (v_id v)) (likes s)"
  let ?comments = "filter (\<lambda>d. \<exists>v\<in>set (videos s). v_owner v = u \<and> c_video d = v_id v) (comments s)"
  let ?stats = "\<lparr>totalVideos = length ?owned, totalViews = sum_list (map v_views ?owned),
      totalSubscribers = length (filter (\<lambda>d. s_channel d = u) (subscriptions s)),
      totalLikes = length ?likes, totalComments = length ?comments\<rparr>"
  have likes: "(\<lambda>d. case l_video d of None \<Rightarrow> False
                                     | Some v \<Rightarrow> v \<in> set (ownedVideoIds (videos s) u)) =
       (\<lambda>d. \<exists>v\<in>set (videos s). v_owner v = u \<and> l_video d = Some (v_id v))"
    by (auto simp: ownedVideoIds_set fun_eq_iff split: option.splits)
  have comments: "(\<lambda>d. c_video d \<in> set (ownedVideoIds (videos s) u)) =
       (\<lambda>d. \<exists>v\<in>set (videos s). v_owner v = u \<and> c_video d = v_id v)"
    by (auto simp: ownedVideoIds_set fun_eq_iff)
  have run: "getChannelStats u s =
      (s, Inr (ApiResponse 200 ?stats ''Channel stats fetched successfully''))"
    unfolding getChannelStats_def Let_def countDocuments_def likes comments
      firstOrZero_aggregateTotalViews by simp
  have zero: "?stats = \<lparr>totalVideos = 0, totalViews = 0, totalSubscribers = 0, totalLikes = 0,
                   totalComments = 0\<rparr>"
    if "?owned = []" and "filter (\<lambda>d. s_channel d = u) (subscriptions s) = []"
  proof -
    have none: "\<forall>v\<in>set (videos s). v_owner v \<noteq> u"
      using that(1) by (simp add: filter_empty_conv)
    have "?likes = []" using none by (auto simp: filter_empty_conv)
    moreover have "?comments = []" using none by (auto simp: filter_empty_conv)
    ultimately show ?thesis using that by simp
  qed
  show ?thesis
    unfolding run using zero by simp
qed

theorem getChannelStats_counts_witness:
  "filter (\<lambda>v. v_owner v = 2) (videos sampleStore) = [] \<and>
   filter (\<lambda>d. s_channel d = 2) (subscriptions sampleStore) = [] \<and>
   getChannelStats 2 sampleStore =
     (sampleStore,
      Inr (ApiResponse 200
             \<lparr>totalVideos = 0, totalViews = 0, totalSubscribers = 0, totalLikes = 0,
               totalComments = 0\<rparr>
             ''Channel stats fetched successfully''))"
proof -
  have "filter (\<lambda>v. v_owner v = 2) (videos sampleStore) = []"
    "filter (\<lambda>d. s_channel d = 2) (subscriptions sampleStore) = []"
    by (simp_all add: sampleStore_def sampleVideo_def)
  then show ?thesis
    using getChannelStats_counts[of 2 sampleStore]
    by (auto simp: prod_eq_iff)
qed

subsection \<open>Deleting a video\<close>

text \<open>
  C3, as stated, fails: user 1 deletes the own video 10 of a store in which user 2 likes
  that video and a playlist holds it; the request succeeds, and afterwards the like edge
  on video 10 is still present and the playlist still lists the id 10.
\<close>

theorem deleteVideo_cascade_counterexample:
  "deleteVideo 1 (ObjectId 10 Canonical) likedStore =
     (likedStore\<lparr>videos := []\<rparr>, Inr (ApiResponse 200 () ''Video deleted successfully'')) \<and>
   present (likedStore\<lparr>videos := []\<rparr>) (2, VideoItem 10, LIKE) \<and>
   map p_videos (playlists (likedStore\<lparr>videos := []\<rparr>)) = [[10]]"
  by (simp add: deleteVideo_def likedStore_def sampleStore_def sampleVideo_def findById_def
      present_def edges_def videoLikeEdge_def)

text \<open>
  C3, amended.  A delete of an existing video by its owner succeeds and takes exactly that
  video document out of the video collection; the likes, the playlists and every edge
  are left as they were.
\<close>

theorem deleteVideo_removes_only_the_video:
  assumes "findById v_id (videos s) vid = Some video" and "v_owner video = caller"
  shows "deleteVideo caller (ObjectId vid sp) s =
      (s\<lparr>videos := remove1 video (videos s)\<rparr>,
       Inr (ApiResponse 200 () ''Video deleted successfully'')) \<and>
    likes (fst (deleteVideo caller (ObjectId vid sp) s)) = likes s \<and>
    playlists (fst (deleteVideo caller (ObjectId vid sp) s)) = playlists s \<and>
    edges (fst (deleteVideo caller (ObjectId vid sp) s)) = edges s"
  using assms findByIdAndDelete_found[OF assms(1)]
  by (simp add: deleteVideo_def edges_def)

theorem deleteVideo_removes_only_the_video_witness:
  "findById v_id (videos likedStore) 10 = Some sampleVideo \<and> v_owner sampleVideo = 1 \<and>
   videos (fst (deleteVideo 1 (ObjectId 10 Canonical) likedStore)) = [] \<and>
   likes (fst (deleteVideo 1 (ObjectId 10 Canonical) likedStore)) = likes likedStore"
proof -
  have found: "findById v_id (videos likedStore) 10 = Some sampleVideo"
    by (simp add: likedStore_def sampleStore_def sampleVideo_def findById_def)
  have own: "v_owner sampleVideo = 1"
    by (simp add: sampleVideo_def)
  show ?thesis
    using deleteVideo_removes_only_the_video[OF found own] found own
    by (simp add: likedStore_def sampleStore_def)
qed

subsection \<open>Empty updates\<close>

text \<open>
  C8 at the failing input: the owner of video 10 sends an update with no title, no
  description and no thumbnail; the request is answered with status 200 and the unchanged
  video.  The same empty update of the owner's playlist 40 is rejected with status 400.
\<close>

theorem empty_update_of_video_succeeds:
  "updateVideo (\<lambda>path. None) 1 (ObjectId 10 Canonical) \<lparr>vb_title = None, vb_description = None\<rparr> None
       sampleStore =
     (sampleStore, Inr (ApiResponse 200 (Some sampleVideo) ''Video updated successfully'')) \<and>
   updatePlaylist 1 (ObjectId 40 Canonical) \<lparr>pb_name = None, pb_description = None\<rparr> sampleStore =
     (sampleStore,
      Inl (ApiError 400 ''At least one field (name or description) is required''))"
  by (simp add: updateVideo_def writeVideoUpdate_def setVideoFields_def updatePlaylist_def
      sampleStore_def sampleVideo_def findById_def)

subsection \<open>The ownership guard\<close>




subsection \<open>Pagination\<close>

lemma ceilDiv_eq_ceiling:
  fixes n l :: nat
  assumes "0 < l"
  shows "(n + l - 1) div l = nat \<lceil>real n / real l\<rceil>"
proof -
  define k where "k = (n + l - 1) div l"
  have up: "n \<le> k * l"
    using dividend_less_div_times[OF assms, of "n + l - 1"] assms by (simp add: k_def)
  have "k * l \<le> n + l - 1"
    unfolding k_def by (rule div_times_less_eq_dividend)
  then have low: "k * l < n + l"
    using assms by linarith
  have "real n \<le> real k * real l"
    using up by (metis of_nat_le_iff of_nat_mult)
  then have le: "real n / real l \<le> real_of_int (int k)"
    using assms by (simp add: pos_divide_le_eq)
  have "real k * real l < real n + real l"
    using low by (metis of_nat_less_iff of_nat_mult of_nat_add)
  then have "(real k - 1) * real l < real n"
    by (simp add: algebra_simps)
  then have gt: "real_of_int (int k) - 1 < real n / real l"
    using assms by (simp add: pos_less_divide_eq)
  have "\<lceil>real n / real l\<rceil> = int k"
    using ceiling_unique[OF gt le] .
  then show ?thesis by (simp add: k_def)
qed

lemma drop_beyond:
  fixes n l p :: nat
  assumes "0 < l" and "(n + l - 1) div l < p"
  shows "n \<le> (p - 1) * l"
proof -
  have "n \<le> ((n + l - 1) div l) * l"
    using dividend_less_div_times[OF assms(1), of "n + l - 1"] assms(1) by simp
  also have "\<dots> \<le> (p - 1) * l"
    using assms(2) by (intro mult_le_mono1) simp
  finally show ?thesis .
qed

lemma paginate_valid:
  assumes "1 \<le> C" and "1 \<le> P" and "1 \<le> L"
  shows "paginate C matching (Num P) (Num L) =
     Some \<lparr>pr_items = take (min (nat L) C) (drop ((nat P - 1) * min (nat L) C) matching),
            pr_totalItems = length matching, pr_page = P, pr_limit = int (min (nat L) C),
            pr_totalPages = nat \<lceil>real (length matching) / real (min (nat L) C)\<rceil>\<rparr>"
proof -
  have "0 < min (nat L) C" using assms by simp
  from ceilDiv_eq_ceiling[OF this, of "length matching"] assms
  show ?thesis by (simp add: paginate_def Let_def)
qed

lemma paginate_beyond:
  assumes "1 \<le> C" and "1 \<le> P" and "1 \<le> L"
    and "\<lceil>real (length matching) / real (min (nat L) C)\<rceil> < P"
  shows "paginate C matching (Num P) (Num L) =
     Some \<lparr>pr_items = [], pr_totalItems = length matching, pr_page = P,
            pr_limit = int (min (nat L) C),
            pr_totalPages = nat \<lceil>real (length matching) / real (min (nat L) C)\<rceil>\<rparr>"
proof -
  have pos: "0 < min (nat L) C" using assms by simp
  have "(length matching + min (nat L) C - 1) div min (nat L) C < nat P"
    using ceilDiv_eq_ceiling[OF pos, of "length matching"] assms by simp
  then have "length matching \<le> (nat P - 1) * min (nat L) C"
    using drop_beyond[OF pos] by simp
  then show ?thesis
    using paginate_valid[OF assms(1-3), of matching] by simp
qed

lemma paginate_bounded:
  "paginate C matching page limit = Some r \<Longrightarrow>
     length (pr_items r) \<le> C \<and> pr_limit r \<le> int C"
  by (auto simp: paginate_def Let_def min_le_iff_disj split: jsnum.splits if_splits)

lemma servedPage_specExecutor:
  assumes "1 \<le> C" and "1 \<le> P" and "1 \<le> L"
  shows "servedPage C matching P L
     (Inr (ApiResponse 200 (specExecutor C matching \<lparr>opt_page = Num P, opt_limit = Num L\<rparr>)
             msg))"
proof -
  have "int (min (nat L) C) = min L (int C)"
    using assms by simp
  then show ?thesis
    using paginate_valid[OF assms, of matching]
    by (simp add: servedPage_def specExecutor_def min.commute min_le_iff_disj)
qed

text \<open>
  C4, as stated, fails for a limit above the ceiling.  With the ceiling 100, a request
  for page 2 with limit 200 of a matching set of 150 items is beyond the last page
  \<open>ceil (150 / 200) = 1\<close>; yet the executor, which applies the limit 100, returns the
  50 items of its second page, reports 2 pages and reports the limit 100.
\<close>

theorem page_beyond_requested_pages_counterexample:
  "paginate 100 (replicate 150 ()) (Num 2) (Num 200) =
     Some \<lparr>pr_items = replicate 50 (), pr_totalItems = 150, pr_page = 2, pr_limit = 100,
            pr_totalPages = 2\<rparr> \<and>
   \<lceil>real (length (replicate 150 ())) / real_of_int 200\<rceil> < (2::int)"
  by (simp add: paginate_def)

text \<open>
  C4, amended.  Let the ceiling be \<open>C \<ge> 1\<close> and let \<open>A = min limit C\<close> be the
  applied limit.  For every matching set, every limit \<open>\<ge> 1\<close> and every page
  \<open>P \<ge> 1\<close> beyond \<open>ceil (totalItems / A)\<close>, the pagination executor returns a result,
  not an error: no items, the size of the whole matching set, the number of pages
  \<open>ceil (totalItems / A)\<close>, the page \<open>P\<close> and the limit \<open>A\<close>.  For a limit within
  the ceiling this is the claim as stated: \<open>ceil (totalItems / limit)\<close> pages and the
  limit echoed.  The controllers \<^verbatim>\<open>getAllVideos\<close> and \<^verbatim>\<open>getUserTweets\<close>
  answer a request whose page and limit (1 and 10 when absent) read as \<open>P\<close> and as the
  limit with status 200 and that result, whatever the pipeline produces, when the executor
  they call is this one.
\<close>

theorem page_beyond_totalPages_is_empty:
  assumes "1 \<le> C" and "1 \<le> P" and "1 \<le> L"
    and "\<lceil>real (length matching) / real (min (nat L) C)\<rceil> < P"
  shows "paginate C matching (Num P) (Num L) =
      Some \<lparr>pr_items = [], pr_totalItems = length matching, pr_page = P,
             pr_limit = int (min (nat L) C),
             pr_totalPages = nat \<lceil>real (length matching) / real (min (nat L) C)\<rceil>\<rparr> \<and>
    (L \<le> int C \<longrightarrow>
       paginate C matching (Num P) (Num L) =
         Some \<lparr>pr_items = [], pr_totalItems = length matching, pr_page = P, pr_limit = L,
                pr_totalPages = nat \<lceil>real (length matching) / real_of_int L\<rceil>\<rparr>) \<and>
    (parseInt (case vq_page q of None \<Rightarrow> js ''1'' | Some p \<Rightarrow> p) = Num P \<and>
     parseInt (case vq_limit q of None \<Rightarrow> js ''10'' | Some l \<Rightarrow> l) = Num L \<and>
     aggregate ''videos'' (getAllVideos_pipeline q) s = matching \<longrightarrow>
       getAllVideos parseInt (specExecutor C) aggregate q s =
         (s, Inr (ApiResponse 200
                    (Some \<lparr>pr_items = [], pr_totalItems = length matching, pr_page = P,
                            pr_limit = int (min (nat L) C),
                            pr_totalPages =
                              nat \<lceil>real (length matching) / real (min (nat L) C)\<rceil>\<rparr>)
                    ''Videos fetched successfully''))) \<and>
    (parseInt (case page of None \<Rightarrow> js ''1'' | Some p \<Rightarrow> p) = Num P \<and>
     parseInt (case limit of None \<Rightarrow> js ''10'' | Some l \<Rightarrow> l) = Num L \<and>
     findById u_id (users s) uid \<noteq> None \<and>
     aggregate ''tweets'' (getUserTweets_pipeline uid) s = matching \<longrightarrow>
       getUserTweets parseInt (specExecutor C) aggregate (ObjectId uid sp) page limit s =
         (s, Inr (ApiResponse 200
                    (Some \<lparr>pr_items = [], pr_totalItems = length matching, pr_page = P,
                            pr_limit = int (min (nat L) C),
                            pr_totalPages =
                              nat \<lceil>real (length matching) / real (min (nat L) C)\<rceil>\<rparr>)
                    ''User tweets fetched successfully'')))"
proof -
  have within: "min (nat L) C = nat L" if "L \<le> int C"
    using that assms(3) by simp
  have "L \<le> int C \<longrightarrow>
       paginate C matching (Num P) (Num L) =
         Some \<lparr>pr_items = [], pr_totalItems = length matching, pr_page = P, pr_limit = L,
                pr_totalPages = nat \<lceil>real (length matching) / real_of_int L\<rceil>\<rparr>"
    using paginate_beyond[OF assms] within assms(3) by auto
  then show ?thesis
    using paginate_beyond[OF assms]
    by (auto simp: getAllVideos_def getUserTweets_def specExecutor_def pageOptions_def)
qed

theorem page_beyond_totalPages_is_empty_witness:
  "(1::nat) \<le> 100 \<and> (1::int) \<le> 4 \<and> (1::int) \<le> 10 \<and>
   \<lceil>real (length (replicate 25 ())) / real (min (nat 10) (100::nat))\<rceil> < (4::int) \<and>
   findById u_id (users sampleStore) 2 \<noteq> None \<and>
   getUserTweets
       (\<lambda>txt. if txt = js ''4'' then Num 4 else if txt = js ''10'' then Num 10 else NaN)
       (specExecutor 100) (\<lambda>collection pipeline s. replicate 25 ())
       (ObjectId 2 Canonical) (Some (js ''4'')) None sampleStore =
     (sampleStore,
      Inr (ApiResponse 200
             (Some \<lparr>pr_items = [], pr_totalItems = 25, pr_page = 4, pr_limit = 10,
                     pr_totalPages = 3\<rparr>)
             ''User tweets fetched successfully'')) \<and>
   getAllVideos
       (\<lambda>txt. if txt = js ''4'' then Num 4 else if txt = js ''10'' then Num 10 else NaN)
       (specExecutor 100) (\<lambda>collection pipeline s. replicate 25 ())
       \<lparr>vq_page = Some (js ''4''), vq_limit = Some (js ''10''), vq_query = None,
         vq_sortBy = None, vq_sortType = None, vq_userId = None\<rparr> sampleStore =
     (sampleStore,
      Inr (ApiResponse 200
             (Some \<lparr>pr_items = [], pr_totalItems = 25, pr_page = 4, pr_limit = 10,
                     pr_totalPages = 3\<rparr>)
             ''Videos fetched successfully''))"
proof -
  have h: "(1::nat) \<le> 100" "(1::int) \<le> 4" "(1::int) \<le> 10"
    "\<lceil>real (length (replicate 25 ())) / real (min (nat 10) (100::nat))\<rceil> < (4::int)"
    by simp_all
  have u: "findById u_id (users sampleStore) 2 \<noteq> None"
    by (simp add: sampleStore_def sampleUsers_def findById_def)
  have ne: "js ''4'' \<noteq> js ''10''" "js ''10'' \<noteq> js ''4''"
    by (simp_all add: js_def)
  show ?thesis
    using page_beyond_totalPages_is_empty[OF h,
        where parseInt = "\<lambda>txt. if txt = js ''4'' then Num 4
                                else if txt = js ''10'' then Num 10 else NaN"
          and aggregate = "\<lambda>collection pipeline s. replicate 25 ()"
          and page = "Some (js ''4'')" and limit = None and s = sampleStore and uid = 2
          and sp = Canonical
          and q = "\<lparr>vq_page = Some (js ''4''), vq_limit = Some (js ''10''), vq_query = None,
                     vq_sortBy = None, vq_sortType = None, vq_userId = None\<rparr>"]
      h u ne
    by simp
qed

text \<open>
  C5.  Let the ceiling be \<open>C \<ge> 1\<close>.  Every paginated controller hands the page and
  the limit of the request, as \<^verbatim>\<open>parseInt\<close> reads them (1 and 10 when absent),
  to the pagination executor and answers with its result.  For a request that reads as
  page \<open>P \<ge> 1\<close> and limit \<open>L \<ge> 1\<close> the answer has status 200, the limit applied
  is \<open>min L C\<close>, and the page holds that many items, or all the items left from its
  offset on when these are fewer: never more than \<open>C\<close>, however large \<open>L\<close> is.  No
  request at all is answered by the executor with a page of more than \<open>C\<close> items.
\<close>

theorem requested_limit_is_clamped:
  assumes "1 \<le> C"
    and "parseInt (case page of None \<Rightarrow> js ''1'' | Some p \<Rightarrow> p) = Num P"
    and "parseInt (case limit of None \<Rightarrow> js ''10'' | Some l \<Rightarrow> l) = Num L"
    and "1 \<le> P" and "1 \<le> L"
  shows "(vq_page q = page \<and> vq_limit q = limit \<longrightarrow>
       servedPage C (aggregate ''videos'' (getAllVideos_pipeline q) s) P L
         (snd (getAllVideos parseInt (specExecutor C) aggregate q s))) \<and>
    servedPage C
      (aggregate ''videos''
         (getChannelVideos_pipeline reqUser (case status of None \<Rightarrow> js ''all'' | Some st \<Rightarrow> st)) s)
      P L
      (snd (getChannelVideos parseInt (specExecutor C) aggregate reqUser page limit status s)) \<and>
    servedPage C (aggregate ''likes'' (getLikedVideos_pipeline reqUser) s) P L
      (snd (getLikedVideos parseInt (specExecutor C) aggregate reqUser page limit s)) \<and>
    (findById u_id (users s) uid \<noteq> None \<longrightarrow>
       servedPage C (aggregate ''tweets'' (getUserTweets_pipeline uid) s) P L
         (snd (getUserTweets parseInt (specExecutor C) aggregate (ObjectId uid sp) page limit s)) \<and>
       servedPage C (aggregate ''playlists'' (getUserPlaylists_pipeline uid) s) P L
         (snd (getUserPlaylists parseInt (specExecutor C) aggregate (ObjectId uid sp) page limit
                 s)) \<and>
       servedPage C (aggregate ''subscriptions'' (getUserChannelSubscribers_pipeline uid) s) P L
         (snd (getUserChannelSubscribers parseInt (specExecutor C) aggregate (ObjectId uid sp)
                 page limit s)) \<and>
       servedPage C (aggregate ''subscriptions'' (getSubscribedChannels_pipeline uid) s) P L
         (snd (getSubscribedChannels parseInt (specExecutor C) aggregate (ObjectId uid sp)
                 page limit s))) \<and>
    (specExecutor C matching options = Some r \<longrightarrow>
       length (pr_items r) \<le> C \<and> pr_limit r \<le> int C)"
proof -
  have opts: "pageOptions parseInt page limit = \<lparr>opt_page = Num P, opt_limit = Num L\<rparr>"
    using assms(2,3) by (simp add: pageOptions_def)
  have served: "servedPage C matching P L
      (Inr (ApiResponse 200 (specExecutor C matching (pageOptions parseInt page limit)) msg))"
    for matching :: "'a list" and msg
    using servedPage_specExecutor[OF assms(1,4,5), of matching msg] by (simp add: opts)
  have bound: "specExecutor C matching options = Some r \<longrightarrow>
       length (pr_items r) \<le> C \<and> pr_limit r \<le> int C"
    using paginate_bounded[of C matching "opt_page options" "opt_limit options" r]
    by (simp add: specExecutor_def)
  show ?thesis
    using served bound
    by (auto simp: getAllVideos_def getChannelVideos_def getLikedVideos_def getUserTweets_def
        getUserPlaylists_def getUserChannelSubscribers_def getSubscribedChannels_def)
qed

theorem requested_limit_is_clamped_witness:
  "(1::nat) \<le> 100 \<and> (1::int) \<le> 1 \<and> (1::int) \<le> 101 \<and>
   snd (getLikedVideos
          (\<lambda>txt. if txt = js ''1'' then Num 1 else if txt = js ''101'' then Num 101 else NaN)
          (specExecutor 100) (\<lambda>collection pipeline s. replicate 250 ()) 2 None
          (Some (js ''101'')) sampleStore) =
     Inr (ApiResponse 200
            (Some \<lparr>pr_items = replicate 100 (), pr_totalItems = 250, pr_page = 1,
                    pr_limit = 100, pr_totalPages = 3\<rparr>)
            ''Liked videos fetched successfully'') \<and>
   servedPage 100 (replicate 250 ()) 1 101
     (snd (getLikedVideos
             (\<lambda>txt. if txt = js ''1'' then Num 1 else if txt = js ''101'' then Num 101 else NaN)
             (specExecutor 100) (\<lambda>collection pipeline s. replicate 250 ()) 2 None
             (Some (js ''101'')) sampleStore))"
proof -
  have h: "(1::nat) \<le> 100" "(1::int) \<le> 1" "(1::int) \<le> 101"
    by simp_all
  have ne: "js ''101'' \<noteq> js ''1''"
    by (simp add: js_def)
  have p: "(\<lambda>txt. if txt = js ''1'' then Num 1 else if txt = js ''101'' then Num 101 else NaN)
      (case None of None \<Rightarrow> js ''1'' | Some p \<Rightarrow> p) = Num 1"
    by simp
  have l: "(\<lambda>txt. if txt = js ''1'' then Num 1 else if txt = js ''101'' then Num 101 else NaN)
      (case Some (js ''101'') of None \<Rightarrow> js ''10'' | Some l \<Rightarrow> l) = Num 101"
    using ne by simp
  have run: "snd (getLikedVideos
          (\<lambda>txt. if txt = js ''1'' then Num 1 else if txt = js ''101'' then Num 101 else NaN)
          (specExecutor 100) (\<lambda>collection pipeline s. replicate 250 ()) 2 None
          (Some (js ''101'')) sampleStore) =
     Inr (ApiResponse 200
            (Some \<lparr>pr_items = replicate 100 (), pr_totalItems = 250, pr_page = 1,
                    pr_limit = 100, pr_totalPages = 3\<rparr>)
            ''Liked videos fetched successfully'')"
    using ne by (simp add: getLikedVideos_def pageOptions_def specExecutor_def paginate_def)
  have served: "servedPage 100 (replicate 250 ()) 1 101
     (snd (getLikedVideos
             (\<lambda>txt. if txt = js ''1'' then Num 1 else if txt = js ''101'' then Num 101 else NaN)
             (specExecutor 100) (\<lambda>collection pipeline s. replicate 250 ()) 2 None
             (Some (js ''101'')) sampleStore))"
    using requested_limit_is_clamped[OF h(1) p l h(2,3),
        where aggregate = "\<lambda>collection pipeline s. replicate 250 ()" and s = sampleStore
          and reqUser = 2, THEN conjunct2, THEN conjunct2, THEN conjunct1] .
  show ?thesis
    using h run served by simp
qed

subsection \<open>Stage order\<close>

text \<open>
  C6, as stated, fails: the pipeline of \<^verbatim>\<open>getChannelVideos\<close> joins the likes
  and the comments, replaces them by their counts and projects them away before it sorts;
  its classes of stages are 0, 3, 3, 3, 4, 2.
\<close>

theorem sort_after_joins_counterexample:
  "getChannelVideos_pipeline 1 (js ''all'') =
     [Match (Fields [(''owner'', Equals (BObjectId 1))]),
      Lookup ''likes'' ''_id'' ''video'' ''likes'' [],
      Lookup ''comments'' ''_id'' ''video'' ''comments'' [],
      AddFields [(''likeCount'', Size ''$likes''), (''commentCount'', Size ''$comments'')],
      Project [(''likes'', 0), (''comments'', 0)],
      Sort [(js ''createdAt'', - 1)]] \<and>
   map stageClass (getChannelVideos_pipeline 1 (js ''all'')) = [0, 3, 3, 3, 4, 2] \<and>
   \<not> fixedOrder (getChannelVideos_pipeline 1 (js ''all''))"
  by (simp add: getChannelVideos_pipeline_def fixedOrder_def js_def)

text \<open>
  C6, amended.  The pipeline of \<^verbatim>\<open>getAllVideos\<close> follows the fixed order for
  every request: its first stage is the published filter, then come the owner filter if
  the request names an owner, the search filter if the request has a query, the sort,
  and last the two stages of the owner join.  The pipelines of the two unsorted
  single-document views are a base filter followed by their joins.  The six other
  paginated views put the base filter first, then their joins (and, in
  \<^verbatim>\<open>getChannelVideos\<close>, the projection), and sort by creation time, newest
  first, in the last stage, after every join.
\<close>

theorem pipeline_stage_orders:
  "map stageClass (getAllVideos_pipeline q) =
     0 # (case vq_userId q of Some (ObjectId uid sp) \<Rightarrow> [0] | _ \<Rightarrow> []) @
     (if truthy (vq_query q) then [1] else []) @ [2, 3, 3] \<and>
   hd (getAllVideos_pipeline q) = Match (Fields [(''isPublished'', Equals (BBool True))]) \<and>
   last (butlast (getAllVideos_pipeline q)) = ownerLookup \<and>
   last (getAllVideos_pipeline q) = ownerFirst \<and>
   fixedOrder (getAllVideos_pipeline q) \<and>
   map stageClass (getVideoById_pipeline vid) = [0, 3, 3] \<and>
   fixedOrder (getVideoById_pipeline vid) \<and>
   map stageClass (getPlaylistById_pipeline pid) = [0, 3, 3, 3] \<and>
   fixedOrder (getPlaylistById_pipeline pid) \<and>
   map stageClass (getChannelVideos_pipeline userId status) = [0, 3, 3, 3, 4, 2] \<and>
   sortedLast (getChannelVideos_pipeline userId status) \<and>
   map stageClass (getLikedVideos_pipeline userId) = [0, 3, 3, 2] \<and>
   sortedLast (getLikedVideos_pipeline userId) \<and>
   map stageClass (getUserTweets_pipeline userId) = [0, 3, 3, 2] \<and>
   sortedLast (getUserTweets_pipeline userId) \<and>
   map stageClass (getUserPlaylists_pipeline userId) = [0, 3, 3, 2] \<and>
   sortedLast (getUserPlaylists_pipeline userId) \<and>
   map stageClass (getUserChannelSubscribers_pipeline userId) = [0, 3, 3, 2] \<and>
   sortedLast (getUserChannelSubscribers_pipeline userId) \<and>
   map stageClass (getSubscribedChannels_pipeline userId) = [0, 3, 3, 2] \<and>
   sortedLast (getSubscribedChannels_pipeline userId)"
proof -
  have classes: "map stageClass (getAllVideos_pipeline q) =
     0 # (case vq_userId q of Some (ObjectId uid sp) \<Rightarrow> [0] | _ \<Rightarrow> []) @
     (if truthy (vq_query q) then [1] else []) @ [2, 3, 3]"
    by (simp add: getAllVideos_pipeline_def ownerLookup_def ownerFirst_def
        split: option.splits param.splits)
  have "fixedOrder (getAllVideos_pipeline q)"
    unfolding fixedOrder_def classes
    by (auto simp: sorted_append split: option.splits param.splits)
  moreover have "hd (getAllVideos_pipeline q) =
      Match (Fields [(''isPublished'', Equals (BBool True))])"
    by (simp add: getAllVideos_pipeline_def)
  moreover have "last (butlast (getAllVideos_pipeline q)) = ownerLookup"
    "last (getAllVideos_pipeline q) = ownerFirst"
    by (simp_all add: getAllVideos_pipeline_def butlast_append)
  ultimately show ?thesis
    using classes
    by (simp add: fixedOrder_def sortedLast_def getVideoById_pipeline_def
        getPlaylistById_pipeline_def getChannelVideos_pipeline_def getLikedVideos_pipeline_def
        getUserTweets_pipeline_def getUserPlaylists_pipeline_def
        getUserChannelSubscribers_pipeline_def getSubscribedChannels_pipeline_def
        ownerLookup_def ownerFirst_def)
qed

theorem pipeline_stage_orders_witness:
  "map stageClass
     (getAllVideos_pipeline
        \<lparr>vq_page = None, vq_limit = None, vq_query = Some (js ''cat''),
          vq_sortBy = Some (js ''views''), vq_sortType = Some (js ''asc''),
          vq_userId = Some (ObjectId 1 Canonical)\<rparr>) = [0, 0, 1, 2, 3, 3] \<and>
   fixedOrder
     (getAllVideos_pipeline
        \<lparr>vq_page = None, vq_limit = None, vq_query = Some (js ''cat''),
          vq_sortBy = Some (js ''views''), vq_sortType = Some (js ''asc''),
          vq_userId = Some (ObjectId 1 Canonical)\<rparr>) \<and>
   sortedLast (getChannelVideos_pipeline 1 (js ''all''))"
proof -
  have "truthy (Some (js ''cat''))"
    by (simp add: js_def)
  then show ?thesis
    using pipeline_stage_orders[where q =
        "\<lparr>vq_page = None, vq_limit = None, vq_query = Some (js ''cat''),
          vq_sortBy = Some (js ''views''), vq_sortType = Some (js ''asc''),
          vq_userId = Some (ObjectId 1 Canonical)\<rparr>" and userId = 1 and status = "js ''all''"]
    by simp
qed

end
